theory Spec2Isabelle
  imports Main "HOL-Library.Word" "HOL-Library.Multiset"
begin

section \<open>Strings, runes and the string helpers of the standard library\<close>

text \<open>
  A Go string is a sequence of bytes, so it is modelled as \<^typ>\<open>string\<close>, a list of
  8-bit characters: \<open>len(s)\<close> is \<^const>\<open>length\<close> and \<open>s[:n]\<close> is \<^const>\<open>take\<close>.
  A rune is a Unicode code point, a natural number here.  \<open>for _, c := range s\<close>
  decodes the bytes as UTF-8; a byte that starts no valid encoding yields the rune
  \<open>U+FFFD\<close> and is one byte wide.
\<close>

type_synonym rune = nat

definition RuneError :: rune where
  "RuneError = 0xFFFD"

definition byte :: "char \<Rightarrow> nat" where
  "byte c = of_char c"

text \<open>
  \<open>utf8.first\<close> and \<open>utf8.acceptRanges\<close>: for a leading byte of a multi-byte
  encoding, the size of the encoding and the range accepted for its second byte.
\<close>

definition first :: "nat \<Rightarrow> (nat \<times> nat \<times> nat) option" where
  "first b =
    (if 0xC2 \<le> b \<and> b \<le> 0xDF then Some (2, 0x80, 0xBF)
     else if b = 0xE0 then Some (3, 0xA0, 0xBF)
     else if 0xE1 \<le> b \<and> b \<le> 0xEC then Some (3, 0x80, 0xBF)
     else if b = 0xED then Some (3, 0x80, 0x9F)
     else if 0xEE \<le> b \<and> b \<le> 0xEF then Some (3, 0x80, 0xBF)
     else if b = 0xF0 then Some (4, 0x90, 0xBF)
     else if 0xF1 \<le> b \<and> b \<le> 0xF3 then Some (4, 0x80, 0xBF)
     else if b = 0xF4 then Some (4, 0x80, 0x8F)
     else None)"

text \<open>
  \<open>utf8.DecodeRuneInString\<close>: the first rune of the string and its width in bytes.
  The masks \<open>s0 & 0x1F\<close>, \<open>s0 & 0x0F\<close>, \<open>s0 & 0x07\<close> and \<open>s & 0x3F\<close> are written
  as remainders, the shifts as multiplications.
\<close>

fun DecodeRuneInString :: "string \<Rightarrow> rune \<times> nat" where
  "DecodeRuneInString [] = (RuneError, 0)"
| "DecodeRuneInString (c0 # cs) =
    (let s0 = byte c0 in
     if s0 < 0x80 then (s0, 1)
     else case first s0 of
       None \<Rightarrow> (RuneError, 1)
     | Some (sz, lo, hi) \<Rightarrow>
         if length cs + 1 < sz then (RuneError, 1)
         else let s1 = byte (cs ! 0) in
         if s1 < lo \<or> hi < s1 then (RuneError, 1)
         else if sz \<le> 2 then ((s0 mod 32) * 64 + s1 mod 64, 2)
         else let s2 = byte (cs ! 1) in
         if s2 < 0x80 \<or> 0xBF < s2 then (RuneError, 1)
         else if sz \<le> 3 then ((s0 mod 16) * 4096 + (s1 mod 64) * 64 + s2 mod 64, 3)
         else let s3 = byte (cs ! 2) in
         if s3 < 0x80 \<or> 0xBF < s3 then (RuneError, 1)
         else ((s0 mod 8) * 262144 + (s1 mod 64) * 4096 + (s2 mod 64) * 64 + s3 mod 64, 4))"

text \<open>
  The string cut into its runes, each with the bytes that encode it; \<open>runes\<close> is
  what a \<open>range\<close> loop over the string visits, in order.
\<close>

fun decodeAll :: "string \<Rightarrow> (rune \<times> string) list" where
  "decodeAll [] = []"
| "decodeAll (c # cs) =
    (case DecodeRuneInString (c # cs) of
       (r, w) \<Rightarrow> (r, c # take (w - 1) cs) # decodeAll (drop (w - 1) cs))"

definition runes :: "string \<Rightarrow> rune list" where
  "runes s = map fst (decodeAll s)"

text \<open>
  \<open>utf8.AppendRune\<close>, which is also the conversion \<open>string(rune)\<close>: the UTF-8 encoding
  of a rune; a surrogate or a value beyond \<open>U+10FFFF\<close> is encoded as \<open>U+FFFD\<close>.
\<close>

definition encodeRune :: "rune \<Rightarrow> string" where
  "encodeRune r =
    (if r \<le> 0x7F then [char_of r]
     else if r \<le> 0x7FF then [char_of (0xC0 + r div 64), char_of (0x80 + r mod 64)]
     else if 0x10FFFF < r \<or> (0xD800 \<le> r \<and> r \<le> 0xDFFF)
       then [char_of (0xEF :: nat), char_of (0xBF :: nat), char_of (0xBD :: nat)]
     else if r \<le> 0xFFFF
       then [char_of (0xE0 + r div 4096), char_of (0x80 + (r div 64) mod 64),
             char_of (0x80 + r mod 64)]
     else [char_of (0xF0 + r div 262144), char_of (0x80 + (r div 4096) mod 64),
           char_of (0x80 + (r div 64) mod 64), char_of (0x80 + r mod 64)])"

text \<open>
  \<open>unicode.ToUpper\<close> and \<open>unicode.ToLower\<close> treat ASCII by an explicit branch and
  look every other rune up in the Unicode case tables.  The tables belong to the Go
  release, not to this program: they are the parameter \<open>tbl\<close>.
\<close>

definition unicode_ToUpper :: "(rune \<Rightarrow> rune) \<Rightarrow> rune \<Rightarrow> rune" where
  "unicode_ToUpper tbl r =
    (if r \<le> 0x7F then (if 97 \<le> r \<and> r \<le> 122 then r - 32 else r) else tbl r)"

definition unicode_ToLower :: "(rune \<Rightarrow> rune) \<Rightarrow> rune \<Rightarrow> rune" where
  "unicode_ToLower tbl r =
    (if r \<le> 0x7F then (if 65 \<le> r \<and> r \<le> 90 then r + 32 else r) else tbl r)"

text \<open>
  \<open>strings.Map\<close>: every rune of the string replaced by its image, re-encoded.  (The
  library copies an unchanged prefix instead of re-encoding it, with the same result.)
\<close>

definition Map_runes :: "(rune \<Rightarrow> rune) \<Rightarrow> string \<Rightarrow> string" where
  "Map_runes f s = concat (map (\<lambda>r. encodeRune (f r)) (runes s))"

definition isASCII :: "string \<Rightarrow> bool" where
  "isASCII s = list_all (\<lambda>c. byte c < 0x80) s"

text \<open>
  \<open>strings.ToUpper\<close> and \<open>strings.ToLower\<close>: a string of ASCII bytes is mapped byte
  by byte, any other string rune by rune through \<open>strings.Map\<close>.
\<close>

definition upperByte :: "char \<Rightarrow> char" where
  "upperByte c = (if 97 \<le> byte c \<and> byte c \<le> 122 then char_of (byte c - 32) else c)"

definition lowerByte :: "char \<Rightarrow> char" where
  "lowerByte c = (if 65 \<le> byte c \<and> byte c \<le> 90 then char_of (byte c + 32) else c)"

definition ToUpper :: "(rune \<Rightarrow> rune) \<Rightarrow> string \<Rightarrow> string" where
  "ToUpper tbl s =
    (if isASCII s then map upperByte s else Map_runes (unicode_ToUpper tbl) s)"

definition ToLower :: "(rune \<Rightarrow> rune) \<Rightarrow> string \<Rightarrow> string" where
  "ToLower tbl s =
    (if isASCII s then map lowerByte s else Map_runes (unicode_ToLower tbl) s)"

text \<open>\<open>strings.HasSuffix\<close> and \<open>strings.TrimSuffix\<close>.\<close>

definition HasSuffix :: "string \<Rightarrow> string \<Rightarrow> bool" where
  "HasSuffix s suffix =
    (length suffix \<le> length s \<and> drop (length s - length suffix) s = suffix)"

definition TrimSuffix :: "string \<Rightarrow> string \<Rightarrow> string" where
  "TrimSuffix s suffix =
    (if HasSuffix s suffix then take (length s - length suffix) s else s)"

text \<open>
  \<open>strings.ReplaceAll\<close>: the occurrences of \<open>old\<close> are found from left to right and do
  not overlap.  With an empty \<open>old\<close> the library puts \<open>new\<close> before the first rune and
  after every rune.
\<close>

fun replaceLoop :: "string \<Rightarrow> string \<Rightarrow> string \<Rightarrow> string" where
  "replaceLoop old new [] = []"
| "replaceLoop old new (c # cs) =
    (if take (length old) (c # cs) = old
     then new @ replaceLoop old new (drop (length old - 1) cs)
     else c # replaceLoop old new cs)"

definition ReplaceAll :: "string \<Rightarrow> string \<Rightarrow> string \<Rightarrow> string" where
  "ReplaceAll s old new =
    (if old = [] then new @ concat (map (\<lambda>rb. snd rb @ new) (decodeAll s))
     else replaceLoop old new s)"

text \<open>
  \<open>unicode.IsSpace\<close>, and \<open>strings.TrimSpace\<close>, which removes the leading and the
  trailing runes that are white space.
\<close>

definition IsSpace :: "rune \<Rightarrow> bool" where
  "IsSpace r =
    (r \<in> {0x09, 0x0A, 0x0B, 0x0C, 0x0D, 0x20, 0x85, 0xA0, 0x1680,
           0x2028, 0x2029, 0x202F, 0x205F, 0x3000}
     \<or> (0x2000 \<le> r \<and> r \<le> 0x200A))"

definition TrimSpace :: "string \<Rightarrow> string" where
  "TrimSpace s =
    concat (map snd
      (rev (dropWhile (\<lambda>rb. IsSpace (fst rb))
        (rev (dropWhile (\<lambda>rb. IsSpace (fst rb)) (decodeAll s))))))"

subsection \<open>Paths\<close>

text \<open>
  \<open>path/filepath\<close> on a system whose only separator is the slash and whose paths
  have no volume name.
\<close>

definition IsPathSeparator :: "char \<Rightarrow> bool" where
  "IsPathSeparator c = (c = CHR ''/'')"

text \<open>
  \<open>filepath.Ext\<close> walks back from the last byte to the first separator and returns
  the suffix that starts at the first dot it meets.  \<open>extLoop\<close> gets the bytes still
  to visit, last one first, and the bytes already passed.
\<close>

fun extLoop :: "string \<Rightarrow> string \<Rightarrow> string" where
  "extLoop [] passed = []"
| "extLoop (c # earlier) passed =
    (if IsPathSeparator c then []
     else if c = CHR ''.'' then c # passed
     else extLoop earlier (c # passed))"

definition Ext :: "string \<Rightarrow> string" where
  "Ext path = extLoop (rev path) []"

text \<open>
  \<open>filepath.Base\<close>: the last element of the path, after dropping trailing slashes;
  \<open>"."\<close> for the empty path and \<open>"/"\<close> for a path of slashes only.
\<close>

definition Base :: "string \<Rightarrow> string" where
  "Base path =
    (if path = [] then ''.''
     else let stripped = rev (dropWhile IsPathSeparator (rev path));
              elem = rev (takeWhile (\<lambda>c. \<not> IsPathSeparator c) (rev stripped))
          in if elem = [] then ''/'' else elem)"

section \<open>The library package\<close>

subsection \<open>Identity derivation\<close>

text \<open>
  \<open>generateID\<close>: the hash is a \<open>uint32\<close>, so \<open>hash*31 + uint32(c)\<close> wraps modulo
  \<open>2^32\<close>; \<open>len(base) > 8\<close> and \<open>base[:8]\<close> count bytes.
\<close>

definition pathHash :: "string \<Rightarrow> 32 word" where
  "pathHash path = fold (\<lambda>c hash. hash * 31 + word_of_nat c) (runes path) 0"

definition generateID :: "(rune \<Rightarrow> rune) \<Rightarrow> string \<Rightarrow> string" where
  "generateID tbl path =
    (let hash = pathHash path;
         base = TrimSuffix (Base path) (Ext path);
         base = (if length base > 8 then take 8 base else base)
     in ToUpper tbl base @ encodeRune (65 + unat (hash mod 26)))"


text \<open>
  The identity derivation as the specification words it: the same hash, then the file
  name without its extension, upper-cased, then cut to at most 8 characters, a
  character being one rune as in the hash.
\<close>

definition truncateChars :: "nat \<Rightarrow> string \<Rightarrow> string" where
  "truncateChars n s = concat (map snd (take n (decodeAll s)))"

definition spec_generateID :: "(rune \<Rightarrow> rune) \<Rightarrow> string \<Rightarrow> string" where
  "spec_generateID tbl path =
    (let hash = pathHash path;
         name = TrimSuffix (Base path) (Ext path);
         upper = ToUpper tbl name;
         short = truncateChars 8 upper
     in short @ encodeRune (65 + unat (hash mod 26)))"

subsection \<open>Title cleaning\<close>

definition cleanGameTitle :: "string \<Rightarrow> string" where
  "cleanGameTitle filename =
    (let title = TrimSuffix filename (Ext filename);
         title = ReplaceAll title ''_'' '' '';
         title = ReplaceAll title ''-'' '' '';
         title = fold (\<lambda>pattern t. ReplaceAll t pattern [])
                   [''(USA)'', ''(Europe)'', ''(Japan)''] title
     in TrimSpace title)"

subsection \<open>Records, the store and its lock\<close>

text \<open>
  A \<open>time.Time\<close> is the instant it denotes, counted from the zero \<open>Time\<close>;
  \<open>Before\<close> compares instants.  The counts are Go \<open>int\<close>s; a count is at most the
  length of a slice, so the increments of \<open>Scan\<close> never wrap and the counts are
  modelled as \<^typ>\<open>int\<close>.
\<close>

type_synonym time = int

definition zeroTime :: time where
  "zeroTime = 0"

definition Before :: "time \<Rightarrow> time \<Rightarrow> bool" where
  "Before t u = (t < u)"

record GameInfo =
  ID :: string
  Title :: string
  Description :: string
  Platform :: string
  Path :: string
  CoverPath :: string
  LastPlayed :: time
  PlayCount :: int
  Favorite :: bool
  Category :: string

text \<open>
  \<open>sync.RWMutex\<close>: free, held by one writer, or held by a number of readers.  The
  program releases a lock only after taking it, so what \<open>Unlock\<close> and \<open>RUnlock\<close> do
  to a lock that is not held (a fatal error in Go) never matters.
\<close>

datatype mutex = Unlocked | WriteLocked | ReadLocked nat

record Library =
  Games :: "GameInfo list"
  ScanPaths :: "string list"
  Categories :: "string \<rightharpoonup> int"
  Platforms :: "string \<rightharpoonup> int"
  LastScan :: time
  mu :: mutex
  configPath :: string

text \<open>
  The model runs one call at a time.  A call that asks for a lock it cannot get waits
  for a holder to release it; no other call runs meanwhile, so it waits for ever.  A
  method therefore either returns or blocks, and in both cases leaves a store behind.
\<close>

datatype 'a outcome = Returns 'a | Blocks

definition Lock :: "Library \<Rightarrow> Library option" where
  "Lock lib = (if mu lib = Unlocked then Some (lib\<lparr>mu := WriteLocked\<rparr>) else None)"

definition Unlock :: "Library \<Rightarrow> Library" where
  "Unlock lib = lib\<lparr>mu := Unlocked\<rparr>"

definition RLock :: "Library \<Rightarrow> Library option" where
  "RLock lib =
    (case mu lib of
       Unlocked \<Rightarrow> Some (lib\<lparr>mu := ReadLocked 1\<rparr>)
     | ReadLocked n \<Rightarrow> Some (lib\<lparr>mu := ReadLocked (n + 1)\<rparr>)
     | WriteLocked \<Rightarrow> None)"

definition RUnlock :: "Library \<Rightarrow> Library" where
  "RUnlock lib =
    (case mu lib of
       ReadLocked n \<Rightarrow> (if n \<le> 1 then lib\<lparr>mu := Unlocked\<rparr> else lib\<lparr>mu := ReadLocked (n - 1)\<rparr>)
     | _ \<Rightarrow> lib)"

subsection \<open>Errors and the world outside the program\<close>

text \<open>
  The errors the store hands to its callers: a \<open>*fs.PathError\<close> of a failed system
  call, the sentinel \<open>os.ErrNotExist\<close>, and an error of \<open>encoding/json\<close>.
  \<open>IsNotExist\<close> is \<open>os.IsNotExist\<close>, the test for "the file does not exist".
\<close>

datatype errno = ENOENT | ENOTDIR | EACCES | ELOOP | ENAMETOOLONG | EIO | ENOSPC | EROFS

datatype error = PathError string string errno | ErrNotExist | JSONError string

fun IsNotExist :: "error \<Rightarrow> bool" where
  "IsNotExist (PathError opn path e) = (e = ENOENT)"
| "IsNotExist ErrNotExist = True"
| "IsNotExist (JSONError msg) = False"

text \<open>
  What \<open>filepath.Walk\<close> finds at a path, as \<open>os.Lstat\<close> and the directory listing
  report it: nothing (the \<open>lstat\<close> fails), an entry that is not a directory, a directory
  whose names cannot be read, or a directory with its entries.  Each entry of a
  directory is listed with the path \<open>filepath.Join(dir, name)\<close> under which \<open>Walk\<close>
  reports it, in the order of the sorted names.
\<close>

datatype nondir = Regular | Symlink | Device | NamedPipe | Socket

datatype fnode =
    NoInfo errno
  | File nondir
  | DirNoRead errno
  | Dir "(string \<times> fnode) list"

datatype FileInfo = FileOf nondir | DirInfo

fun IsDir :: "FileInfo \<Rightarrow> bool" where
  "IsDir DirInfo = True"
| "IsDir (FileOf k) = False"

fun IsRegular :: "FileInfo \<Rightarrow> bool" where
  "IsRegular (FileOf k) = (k = Regular)"
| "IsRegular DirInfo = False"

text \<open>
  The messages of the server package.  The fields of \<open>Request\<close>, \<open>Response\<close> and
  \<open>GameListPayload\<close> carry a prefix, since \<open>ID\<close>, \<open>Platform\<close> and \<open>Category\<close>
  already name fields of \<open>GameInfo\<close>.  A payload is
  the raw JSON text, or nothing when the request has none.  \<open>Data\<close> is an
  \<open>interface{}\<close> in the source; the datatype lists the values the program stores in it.
\<close>

record Request =
  ReqType :: string
  ReqID :: string
  Payload :: "string option"

datatype data =
    NoData
  | GameList "GameInfo list"
  | Game GameInfo
  | Text string
  | Fields "(string \<times> string) list"

record Response =
  RespType :: string
  RespID :: string
  Success :: bool
  Data :: data
  Error :: string

record GameListPayload =
  PayloadPlatform :: string
  PayloadCategory :: string
  PayloadLimit :: int

text \<open>
  The world a call runs in: the answers of \<open>os.Stat\<close>, the tree under each scan root,
  the clock, the Unicode case tables, the outcome of \<open>json.MarshalIndent\<close> on the
  exported fields of the store and of \<open>os.WriteFile\<close>, and what \<open>json.Unmarshal\<close>
  makes of a request line (the request, or the text of the error), of a payload read
  as a string and of a payload read as a \<open>GameListPayload\<close> (the struct as the call
  leaves it).  The contents of the disk are not followed.
\<close>

type_synonym exported =
  "GameInfo list \<times> string list \<times> (string \<rightharpoonup> int) \<times> (string \<rightharpoonup> int) \<times> time"

record env =
  Stat :: "string \<Rightarrow> errno + FileInfo"
  Tree :: "string \<Rightarrow> fnode"
  Now :: time
  UpperCase :: "rune \<Rightarrow> rune"
  LowerCase :: "rune \<Rightarrow> rune"
  MarshalIndent :: "exported \<Rightarrow> error + string"
  WriteFile :: "string \<Rightarrow> string \<Rightarrow> error option"
  UnmarshalRequest :: "string \<Rightarrow> string + Request"
  UnmarshalString :: "string \<Rightarrow> error + string"
  UnmarshalGameList :: "string \<Rightarrow> GameListPayload"

definition os_Stat :: "env \<Rightarrow> string \<Rightarrow> error + FileInfo" where
  "os_Stat env path =
    (case Stat env path of
       Inl e \<Rightarrow> Inl (PathError ''stat'' path e)
     | Inr info \<Rightarrow> Inr info)"

subsection \<open>Scan paths\<close>

definition AddScanPath :: "env \<Rightarrow> string \<Rightarrow> Library \<Rightarrow> error option outcome \<times> Library" where
  "AddScanPath env path lib =
    (case Lock lib of
       None \<Rightarrow> (Blocks, lib)
     | Some l \<Rightarrow>
        (case os_Stat env path of
           Inl err \<Rightarrow> (Returns (Some err), Unlock l)
         | Inr info \<Rightarrow>
             if \<not> IsDir info then (Returns (Some ErrNotExist), Unlock l)
             else if path \<in> set (ScanPaths l) then (Returns None, Unlock l)
             else (Returns None, Unlock (l\<lparr>ScanPaths := ScanPaths l @ [path]\<rparr>))))"

subsection \<open>Persistence\<close>

text \<open>
  \<open>saveUnlocked\<close> changes nothing in memory; the result of \<open>os.MkdirAll\<close> is dropped
  by the source.  \<open>Save\<close> takes the write lock around it.
\<close>

definition exportedFields :: "Library \<Rightarrow> exported" where
  "exportedFields lib = (Games lib, ScanPaths lib, Categories lib, Platforms lib, LastScan lib)"

definition saveUnlocked :: "env \<Rightarrow> Library \<Rightarrow> error option" where
  "saveUnlocked env lib =
    (case MarshalIndent env (exportedFields lib) of
       Inl err \<Rightarrow> Some err
     | Inr bytes \<Rightarrow> WriteFile env (configPath lib) bytes)"

definition Save :: "env \<Rightarrow> Library \<Rightarrow> error option outcome \<times> Library" where
  "Save env lib =
    (case Lock lib of
       None \<Rightarrow> (Blocks, lib)
     | Some l \<Rightarrow> (Returns (saveUnlocked env l), Unlock l))"

subsection \<open>Scanning\<close>

text \<open>
  The platform table.  The source ranges over a Go map, whose order is not fixed;
  \<open>detectIn\<close> takes the entries in the order they are visited.
\<close>

definition platformExtensions :: "(string \<times> string list) list" where
  "platformExtensions =
    [(''NES'', [''.nes'', ''.unf'', ''.unif'']),
     (''SNES'', [''.sfc'', ''.smc'']),
     (''N64'', [''.n64'', ''.z64'', ''.v64'']),
     (''GBA'', [''.gba'']),
     (''GB'', [''.gb'', ''.gbc'']),
     (''ATARI'', [''.a26'', ''.bin''])]"

fun detectIn :: "(string \<times> string list) list \<Rightarrow> string \<Rightarrow> string" where
  "detectIn [] ext = []"
| "detectIn ((platform, extensions) # others) ext =
    (if ext \<in> set extensions then platform else detectIn others ext)"

definition detectPlatform :: "string \<Rightarrow> string" where
  "detectPlatform ext = detectIn platformExtensions ext"

text \<open>
  The calls \<open>filepath.Walk\<close> makes to a function that always returns \<open>nil\<close>, as the
  one of \<open>Scan\<close> does: the path, the \<open>FileInfo\<close> if there is one, the error if there
  is one.
\<close>

fun walk :: "string \<Rightarrow> fnode \<Rightarrow> (string \<times> FileInfo option \<times> errno option) list" where
  "walk path (NoInfo e) = [(path, None, Some e)]"
| "walk path (File k) = [(path, Some (FileOf k), None)]"
| "walk path (DirNoRead e) = [(path, Some DirInfo, Some e)]"
| "walk path (Dir entries) =
    (path, Some DirInfo, None) # concat (map (\<lambda>entry. walk (fst entry) (snd entry)) entries)"

definition Walk :: "env \<Rightarrow> string \<Rightarrow>
    (string \<Rightarrow> FileInfo option \<Rightarrow> errno option \<Rightarrow> 's \<Rightarrow> 's) \<Rightarrow> 's \<Rightarrow> 's" where
  "Walk env root fn s = fold (\<lambda>(path, info, err). fn path info err) (walk root (Tree env root)) s"

definition increment :: "(string \<rightharpoonup> int) \<Rightarrow> string \<Rightarrow> (string \<rightharpoonup> int)" where
  "increment m k = m(k \<mapsto> (case m k of None \<Rightarrow> 0 | Some n \<Rightarrow> n) + 1)"

text \<open>
  The function \<open>Scan\<close> hands to \<open>Walk\<close>.  \<open>Walk\<close> passes a \<open>FileInfo\<close> whenever it
  passes no error, so the branch without either is never taken.
\<close>

definition scanEntry :: "env \<Rightarrow> string \<Rightarrow> FileInfo option \<Rightarrow> errno option \<Rightarrow> Library \<Rightarrow> Library" where
  "scanEntry env path info err lib =
    (if err \<noteq> None then lib
     else case info of
       None \<Rightarrow> lib
     | Some i \<Rightarrow>
        if IsDir i then lib
        else
          let ext = ToLower (LowerCase env) (Ext path);
              platform = detectPlatform ext
          in if platform \<noteq> [] then
               let game = \<lparr>ID = generateID (UpperCase env) path,
                           Title = cleanGameTitle (Base path),
                           Description = [],
                           Platform = platform,
                           Path = path,
                           CoverPath = [],
                           LastPlayed = zeroTime,
                           PlayCount = 0,
                           Favorite = False,
                           Category = ''Uncategorized''\<rparr>
               in lib\<lparr>Games := Games lib @ [game],
                      Platforms := increment (Platforms lib) platform,
                      Categories := increment (Categories lib) (Category game)\<rparr>
             else lib)"

text \<open>
  \<open>Scan\<close> holds the write lock from its first statement to its return, and its last
  statement calls \<open>Save\<close>, which asks for the same lock.
\<close>

definition Scan :: "env \<Rightarrow> Library \<Rightarrow> error option outcome \<times> Library" where
  "Scan env lib =
    (case Lock lib of
       None \<Rightarrow> (Blocks, lib)
     | Some l0 \<Rightarrow>
        let l1 = l0\<lparr>Games := [], Categories := Map.empty, Platforms := Map.empty\<rparr>;
            l2 = fold (\<lambda>scanPath l. Walk env scanPath (scanEntry env) l) (ScanPaths l1) l1;
            l3 = l2\<lparr>LastScan := Now env\<rparr>
        in (case Save env l3 of
              (Blocks, l4) \<Rightarrow> (Blocks, l4)
            | (Returns err, l4) \<Rightarrow> (Returns err, Unlock l4)))"

subsection \<open>Queries and the favourite flag\<close>

definition GetGames :: "string \<Rightarrow> string \<Rightarrow> Library \<Rightarrow> GameInfo list outcome \<times> Library" where
  "GetGames platform category lib =
    (case RLock lib of
       None \<Rightarrow> (Blocks, lib)
     | Some l \<Rightarrow>
        if platform = [] \<and> category = [] then (Returns (Games l), RUnlock l)
        else (Returns (filter (\<lambda>game. \<not> (platform \<noteq> [] \<and> Platform game \<noteq> platform)
                                     \<and> \<not> (category \<noteq> [] \<and> Category game \<noteq> category))
                        (Games l)), RUnlock l))"

definition GetGameByID :: "string \<Rightarrow> Library \<Rightarrow> GameInfo option outcome \<times> Library" where
  "GetGameByID ident lib =
    (case RLock lib of
       None \<Rightarrow> (Blocks, lib)
     | Some l \<Rightarrow> (Returns (find (\<lambda>game. ID game = ident) (Games l)), RUnlock l))"

text \<open>
  The loop of \<open>ToggleFavorite\<close>: the first record with the given ID has its flag
  flipped; \<open>None\<close> when the loop ends without a match.
\<close>

fun toggleFirst :: "string \<Rightarrow> GameInfo list \<Rightarrow> GameInfo list option" where
  "toggleFirst ident [] = None"
| "toggleFirst ident (game # games) =
    (if ID game = ident then Some (game\<lparr>Favorite := \<not> Favorite game\<rparr> # games)
     else map_option ((#) game) (toggleFirst ident games))"

definition ToggleFavorite :: "env \<Rightarrow> string \<Rightarrow> Library \<Rightarrow> error option outcome \<times> Library" where
  "ToggleFavorite env ident lib =
    (case Lock lib of
       None \<Rightarrow> (Blocks, lib)
     | Some l \<Rightarrow>
        (case toggleFirst ident (Games l) of
           Some games \<Rightarrow>
             (let l' = l\<lparr>Games := games\<rparr> in (Returns (saveUnlocked env l'), Unlock l'))
         | None \<Rightarrow> (Returns None, Unlock l)))"

definition GetFavorites :: "Library \<Rightarrow> GameInfo list outcome \<times> Library" where
  "GetFavorites lib =
    (case RLock lib of
       None \<Rightarrow> (Blocks, lib)
     | Some l \<Rightarrow> (Returns (filter Favorite (Games l)), RUnlock l))"

text \<open>
  \<open>GetRecentlyPlayed\<close> sorts a copy with two nested index loops.  The source tests
  \<open>i < len(games)-1\<close> and \<open>j < len(games)-i-1\<close> on signed integers; on natural
  numbers the same tests are \<open>i + 1 < length games\<close> and \<open>j + i + 1 < length games\<close>.
  Both indices of the swap are within the slice whenever the inner test holds.
\<close>

function innerLoop :: "nat \<Rightarrow> nat \<Rightarrow> GameInfo list \<Rightarrow> GameInfo list" where
  "innerLoop i j games =
    (if j + i + 1 < length games
     then innerLoop i (j + 1)
            (if Before (LastPlayed (games ! j)) (LastPlayed (games ! (j + 1)))
             then games[j := games ! (j + 1), j + 1 := games ! j]
             else games)
     else games)"
  by pat_completeness auto
termination
  by (relation "measure (\<lambda>(i, j, games). length games - i - j)") auto

declare innerLoop.simps [simp del]

function outerLoop :: "nat \<Rightarrow> GameInfo list \<Rightarrow> GameInfo list" where
  "outerLoop i games =
    (if i + 1 < length games then outerLoop (i + 1) (innerLoop i 0 games) else games)"
  by pat_completeness auto
termination
proof (relation "measure (\<lambda>(i, games). length games - i)")
  show "wf (measure (\<lambda>(i, games). length games - i))"
    by simp
next
  fix i :: nat and games :: "GameInfo list"
  assume more: "i + 1 < length games"
  have "length (innerLoop a b gs) = length gs" for a b gs
  proof (induction a b gs rule: innerLoop.induct)
    case (1 a b gs)
    then show ?case
      by (subst innerLoop.simps) simp
  qed
  with more show "((i + 1, innerLoop i 0 games), (i, games))
      \<in> measure (\<lambda>(i, games). length games - i)"
    by simp
qed

declare outerLoop.simps [simp del]

definition GetRecentlyPlayed :: "int \<Rightarrow> Library \<Rightarrow> GameInfo list outcome \<times> Library" where
  "GetRecentlyPlayed limit lib =
    (case RLock lib of
       None \<Rightarrow> (Blocks, lib)
     | Some l \<Rightarrow>
        let games = outerLoop 0 (Games l)
        in if 0 < limit \<and> limit < int (length games)
           then (Returns (take (nat limit) games), RUnlock l)
           else (Returns games, RUnlock l))"

section \<open>The request handler\<close>

definition MsgTypeListGames :: string where "MsgTypeListGames = ''list_games''"
definition MsgTypeGetGame :: string where "MsgTypeGetGame = ''get_game''"
definition MsgTypeGetFavorites :: string where "MsgTypeGetFavorites = ''get_favorites''"
definition MsgTypeToggleFavorite :: string where "MsgTypeToggleFavorite = ''toggle_favorite''"
definition MsgTypeScan :: string where "MsgTypeScan = ''scan''"
definition MsgTypeStatus :: string where "MsgTypeStatus = ''status''"
definition MsgTypeError :: string where "MsgTypeError = ''error''"
definition MsgTypeSuccess :: string where "MsgTypeSuccess = ''success''"

text \<open>The decimal digits of a number, for \<open>fmt.Sprintf("Found %d games", n)\<close>.\<close>

fun decimal :: "nat \<Rightarrow> string" where
  "decimal n =
    (if n < 10 then [char_of (48 + n)] else decimal (n div 10) @ [char_of (48 + n mod 10)])"

declare decimal.simps [simp del]

definition emptyPayload :: GameListPayload where
  "emptyPayload = \<lparr>PayloadPlatform = [], PayloadCategory = [], PayloadLimit = 0\<rparr>"

text \<open>
  \<open>json.Unmarshal(req.Payload, &id)\<close>: \<open>id\<close> starts empty and stays so when the
  payload is missing or does not decode; the source drops the error.
\<close>

definition payloadID :: "env \<Rightarrow> Request \<Rightarrow> string" where
  "payloadID env req =
    (case UnmarshalString env (case Payload req of None \<Rightarrow> [] | Some raw \<Rightarrow> raw) of
       Inl err \<Rightarrow> []
     | Inr s \<Rightarrow> s)"

text \<open>The text of an error, \<open>err.Error()\<close>.\<close>

fun errnoText :: "errno \<Rightarrow> string" where
  "errnoText ENOENT = ''no such file or directory''"
| "errnoText ENOTDIR = ''not a directory''"
| "errnoText EACCES = ''permission denied''"
| "errnoText ELOOP = ''too many levels of symbolic links''"
| "errnoText ENAMETOOLONG = ''file name too long''"
| "errnoText EIO = ''input/output error''"
| "errnoText ENOSPC = ''no space left on device''"
| "errnoText EROFS = ''read-only file system''"

fun errorText :: "error \<Rightarrow> string" where
  "errorText (PathError opn path e) = opn @ '' '' @ path @ '': '' @ errnoText e"
| "errorText ErrNotExist = ''file does not exist''"
| "errorText (JSONError msg) = msg"

definition handleRequest :: "env \<Rightarrow> Request \<Rightarrow> Library \<Rightarrow> Response outcome \<times> Library" where
  "handleRequest env req lib =
    (if ReqType req = MsgTypeListGames then
       (let payload = (case Payload req of
                         None \<Rightarrow> emptyPayload
                       | Some raw \<Rightarrow> UnmarshalGameList env raw)
        in case GetGames (PayloadPlatform payload) (PayloadCategory payload) lib of
             (Blocks, l) \<Rightarrow> (Blocks, l)
           | (Returns games, l) \<Rightarrow>
               (Returns \<lparr>RespType = MsgTypeSuccess, RespID = ReqID req, Success = True,
                         Data = GameList games, Error = []\<rparr>, l))
     else if ReqType req = MsgTypeGetGame then
       (case GetGameByID (payloadID env req) lib of
          (Blocks, l) \<Rightarrow> (Blocks, l)
        | (Returns None, l) \<Rightarrow>
            (Returns \<lparr>RespType = MsgTypeError, RespID = ReqID req, Success = False,
                      Data = NoData, Error = ''Game not found''\<rparr>, l)
        | (Returns (Some game), l) \<Rightarrow>
            (Returns \<lparr>RespType = MsgTypeSuccess, RespID = ReqID req, Success = True,
                      Data = Game game, Error = []\<rparr>, l))
     else if ReqType req = MsgTypeGetFavorites then
       (case GetFavorites lib of
          (Blocks, l) \<Rightarrow> (Blocks, l)
        | (Returns games, l) \<Rightarrow>
            (Returns \<lparr>RespType = MsgTypeSuccess, RespID = ReqID req, Success = True,
                      Data = GameList games, Error = []\<rparr>, l))
     else if ReqType req = MsgTypeToggleFavorite then
       (case ToggleFavorite env (payloadID env req) lib of
          (Blocks, l) \<Rightarrow> (Blocks, l)
        | (Returns (Some err), l) \<Rightarrow>
            (Returns \<lparr>RespType = MsgTypeError, RespID = ReqID req, Success = False,
                      Data = NoData, Error = errorText err\<rparr>, l)
        | (Returns None, l) \<Rightarrow>
            (Returns \<lparr>RespType = MsgTypeSuccess, RespID = ReqID req, Success = True,
                      Data = NoData, Error = []\<rparr>, l))
     else if ReqType req = MsgTypeScan then
       (case Scan env lib of
          (Blocks, l) \<Rightarrow> (Blocks, l)
        | (Returns (Some err), l) \<Rightarrow>
            (Returns \<lparr>RespType = MsgTypeError, RespID = ReqID req, Success = False,
                      Data = NoData, Error = errorText err\<rparr>, l)
        | (Returns None, l) \<Rightarrow>
            (Returns \<lparr>RespType = MsgTypeSuccess, RespID = ReqID req, Success = True,
                      Data = Text (''Found '' @ decimal (length (Games l)) @ '' games''),
                      Error = []\<rparr>, l))
     else if ReqType req = MsgTypeStatus then
       (Returns \<lparr>RespType = MsgTypeStatus, RespID = ReqID req, Success = True,
                 Data = Fields [(''status'', ''ready''), (''version'', ''1.0.0'')],
                 Error = []\<rparr>, lib)
     else
       (Returns \<lparr>RespType = MsgTypeError, RespID = ReqID req, Success = False,
                 Data = NoData, Error = ''Unknown message type''\<rparr>, lib))"

section \<open>The server package: one connection\<close>

definition defaultHandler :: "Request \<Rightarrow> Response" where
  "defaultHandler req =
    \<lparr>RespType = MsgTypeStatus, RespID = ReqID req, Success = True,
     Data = Fields [(''status'', ''ready'')], Error = []\<rparr>"

definition errorResponse :: "string \<Rightarrow> string \<Rightarrow> Response" where
  "errorResponse reqID message =
    \<lparr>RespType = MsgTypeError, RespID = reqID, Success = False, Data = NoData, Error = message\<rparr>"

text \<open>
  The loop of \<open>handleClient\<close> over the lines \<open>ReadString\<close> delivers before its first
  error, with the responses handed to \<open>sendResponse\<close> in order.  \<open>serveLine\<close> is the
  body of the loop after the read: the response to send for one line, if any.
  \<open>running\<close> is the server's flag, which nothing changes while the loop runs here;
  \<open>handler\<close> is the installed handler, if any, working on a state of its own.  A
  handler that blocks leaves the loop waiting.  \<open>errorResponse\<close> is the response
  \<open>sendError\<close> builds.
\<close>

definition serveLine :: "env \<Rightarrow> (Request \<Rightarrow> 's \<Rightarrow> Response outcome \<times> 's) option \<Rightarrow>
    string \<Rightarrow> 's \<Rightarrow> Response option outcome \<times> 's" where
  "serveLine env handler received st =
    (let line = TrimSpace received in
     if line = [] then (Returns None, st)
     else case UnmarshalRequest env line of
       Inl err \<Rightarrow> (Returns (Some (errorResponse [] (''Invalid JSON: '' @ err))), st)
     | Inr req \<Rightarrow>
         (case (case handler of
                  Some h \<Rightarrow> h req st
                | None \<Rightarrow> (Returns (defaultHandler req), st)) of
            (Blocks, st') \<Rightarrow> (Blocks, st')
          | (Returns resp, st') \<Rightarrow> (Returns (Some resp), st')))"

fun handleClient :: "env \<Rightarrow> bool \<Rightarrow> (Request \<Rightarrow> 's \<Rightarrow> Response outcome \<times> 's) option \<Rightarrow>
    string list \<Rightarrow> 's \<Rightarrow> Response list \<times> 's" where
  "handleClient env running handler [] st = ([], st)"
| "handleClient env running handler (received # rest) st =
    (if \<not> running then ([], st)
     else case serveLine env handler received st of
       (Blocks, st') \<Rightarrow> ([], st')
     | (Returns reply, st') \<Rightarrow>
         (case handleClient env running handler rest st' of
            (sent, st'') \<Rightarrow> ((case reply of None \<Rightarrow> sent | Some resp \<Rightarrow> resp # sent), st'')))"

section \<open>Notions used to state the properties\<close>

text \<open>A client that calls \<open>AddScanPath\<close> with the same path \<open>n\<close> times in a row.\<close>

fun addRepeatedly :: "env \<Rightarrow> string \<Rightarrow> nat \<Rightarrow> Library \<Rightarrow> error option outcome list \<times> Library" where
  "addRepeatedly env path 0 lib = ([], lib)"
| "addRepeatedly env path (Suc n) lib =
    (case AddScanPath env path lib of
       (result, l) \<Rightarrow>
         (case addRepeatedly env path n l of (results, l') \<Rightarrow> (result # results, l')))"

text \<open>
  One pass of the inner loop of \<open>GetRecentlyPlayed\<close> over a whole list, as a
  recursion on the list: the proofs relate \<open>innerLoop\<close> to it.
\<close>

fun bubble :: "GameInfo list \<Rightarrow> GameInfo list" where
  "bubble [] = []"
| "bubble [x] = [x]"
| "bubble (x # y # rest) =
    (if Before (LastPlayed x) (LastPlayed y) then y # bubble (x # rest)
     else x # bubble (y # rest))"

text \<open>Sorted by \<open>LastPlayed\<close>, later timestamps first.\<close>

definition recentFirst :: "GameInfo list \<Rightarrow> bool" where
  "recentFirst games = sorted_wrt (\<lambda>a b. LastPlayed b \<le> LastPlayed a) games"

text \<open>
  The count maps agree with the records: a key is present exactly when some record
  carries it, and its entry is the number of those records.
\<close>

definition countOf :: "(GameInfo \<Rightarrow> string) \<Rightarrow> GameInfo list \<Rightarrow> string \<Rightarrow> int option" where
  "countOf field games k =
    (if length (filter (\<lambda>game. field game = k) games) = 0 then None
     else Some (int (length (filter (\<lambda>game. field game = k) games))))"

definition consistent :: "Library \<Rightarrow> bool" where
  "consistent lib =
    ((\<forall>p. Platforms lib p = countOf Platform (Games lib) p)
     \<and> (\<forall>c. Categories lib c = countOf Category (Games lib) c))"

text \<open>
  The record \<open>Scan\<close> builds for a path whose extension is mapped; the paths under
  a scan root at which \<open>Walk\<close> reports, without an error, an entry that is not a
  directory; and the test for a mapped extension.
\<close>

definition recordOf :: "env \<Rightarrow> string \<Rightarrow> GameInfo" where
  "recordOf env path =
    \<lparr>ID = generateID (UpperCase env) path,
     Title = cleanGameTitle (Base path),
     Description = [],
     Platform = detectPlatform (ToLower (LowerCase env) (Ext path)),
     Path = path,
     CoverPath = [],
     LastPlayed = zeroTime,
     PlayCount = 0,
     Favorite = False,
     Category = ''Uncategorized''\<rparr>"

fun reportsFile :: "string \<times> FileInfo option \<times> errno option \<Rightarrow> bool" where
  "reportsFile (path, Some info, None) = (\<not> IsDir info)"
| "reportsFile (path, info, err) = False"

definition visitedFiles :: "env \<Rightarrow> string \<Rightarrow> string list" where
  "visitedFiles env root = map fst (filter reportsFile (walk root (Tree env root)))"

definition mapped :: "env \<Rightarrow> string \<Rightarrow> bool" where
  "mapped env path = (detectPlatform (ToLower (LowerCase env) (Ext path)) \<noteq> [])"

text \<open>
  The loops of \<open>Scan\<close>: over the calls of one \<open>Walk\<close>, and over the scan paths.
\<close>

definition scanAll :: "env \<Rightarrow> (string \<times> FileInfo option \<times> errno option) list \<Rightarrow> Library \<Rightarrow> Library" where
  "scanAll env visits lib = fold (\<lambda>(path, info, err). scanEntry env path info err) visits lib"

definition scanRoots :: "env \<Rightarrow> string list \<Rightarrow> Library \<Rightarrow> Library" where
  "scanRoots env roots lib = fold (\<lambda>scanPath l. Walk env scanPath (scanEntry env) l) roots lib"

text \<open>A line of white space only; the empty line is one.\<close>

definition blank :: "string \<Rightarrow> bool" where
  "blank line = list_all IsSpace (runes line)"

section \<open>Inputs of the examples\<close>

text \<open>
  A case table for strings whose runes beyond ASCII have no case, such as kana: it
  maps every rune to itself, as the tables of every Go release do on those runes.
\<close>

definition caselessTable :: "rune \<Rightarrow> rune" where
  "caselessTable r = r"

text \<open>
  The store \<open>NewLibrary\<close> builds before it loads the snapshot, and a world in which
  no path exists, every write succeeds and no line or payload decodes.
\<close>

definition emptyLibrary :: "string \<Rightarrow> Library" where
  "emptyLibrary cfg =
    \<lparr>Games = [], ScanPaths = [], Categories = Map.empty, Platforms = Map.empty,
     LastScan = zeroTime, mu = Unlocked, configPath = cfg\<rparr>"

definition quietEnv :: env where
  "quietEnv =
    \<lparr>Stat = (\<lambda>path. Inl ENOENT),
     Tree = (\<lambda>root. NoInfo ENOENT),
     Now = 0,
     UpperCase = caselessTable,
     LowerCase = caselessTable,
     MarshalIndent = (\<lambda>fields. Inr []),
     WriteFile = (\<lambda>path bytes. None),
     UnmarshalRequest = (\<lambda>line. Inl ''invalid character''),
     UnmarshalString = (\<lambda>raw. Inl (JSONError ''unexpected end of JSON input'')),
     UnmarshalGameList = (\<lambda>raw. emptyPayload)\<rparr>"

text \<open>
  A world with the directory \<open>roms\<close>, which holds the regular file \<open>roms/zelda.nes\<close>,
  the regular file \<open>roms/readme.txt\<close> and the symbolic link \<open>roms/mario.sfc\<close>.
\<close>

definition romsEnv :: env where
  "romsEnv = quietEnv
    \<lparr>Stat := (\<lambda>path. if path = ''roms'' then Inr DirInfo
                     else if path = ''roms/readme.txt'' then Inr (FileOf Regular)
                     else Inl ENOENT),
     Tree := (\<lambda>root. if root = ''roms''
                     then Dir [(''roms/mario.sfc'', File Symlink),
                               (''roms/readme.txt'', File Regular),
                               (''roms/zelda.nes'', File Regular)]
                     else NoInfo ENOENT)\<rparr>"


text \<open>
  A file named with the three katakana \<open>U+30BC U+30EB U+30C0\<close> and the extension
  \<open>.nes\<close>: the name without the extension has 3 characters and 9 bytes.
\<close>

definition kanaPath :: string where
  "kanaPath =
    [CHR 0xE3, CHR 0x82, CHR 0xBC, CHR 0xE3, CHR 0x83, CHR 0xAB, CHR 0xE3, CHR 0x83, CHR 0x80]
      @ ''.nes''"

text \<open>
  A store with one record, the one \<open>Scan\<close> builds for \<open>roms/zelda.nes\<close>.
\<close>

definition zeldaGame :: GameInfo where
  "zeldaGame =
    \<lparr>ID = ''ZELDAW'', Title = ''zelda'', Description = [], Platform = ''NES'',
     Path = ''roms/zelda.nes'', CoverPath = [], LastPlayed = zeroTime, PlayCount = 0,
     Favorite = False, Category = ''Uncategorized''\<rparr>"

definition zeldaLibrary :: Library where
  "zeldaLibrary =
    \<lparr>Games = [zeldaGame], ScanPaths = [''roms''],
     Categories = [''Uncategorized'' \<mapsto> 1], Platforms = [''NES'' \<mapsto> 1],
     LastScan = zeroTime, mu = Unlocked, configPath = ''library.json''\<rparr>"

text \<open>A fresh store with the one scan path \<open>roms\<close>.\<close>

definition romsLibrary :: Library where
  "romsLibrary = (emptyLibrary ''library.json'')\<lparr>ScanPaths := [''roms'']\<rparr>"

text \<open>
  A world whose JSON decoder reads the two payloads \<open>"NOPE"\<close> and \<open>"ZELDAW"\<close> as
  strings and the line \<open>{"type":"status"}\<close> as a request, and nothing else.
\<close>

definition quoted :: "string \<Rightarrow> string" where
  "quoted s = CHR 0x22 # s @ [CHR 0x22]"

definition statusLine :: string where
  "statusLine = ''{'' @ quoted ''type'' @ '':'' @ quoted ''status'' @ ''}''"

definition jsonEnv :: env where
  "jsonEnv = quietEnv
    \<lparr>UnmarshalRequest :=
       (\<lambda>line. if line = statusLine
               then Inr \<lparr>ReqType = ''status'', ReqID = [], Payload = None\<rparr>
               else Inl ''invalid character''),
     UnmarshalString :=
       (\<lambda>raw. if raw = quoted ''NOPE'' then Inr ''NOPE''
              else if raw = quoted ''ZELDAW'' then Inr ''ZELDAW''
              else Inl (JSONError ''cannot unmarshal''))\<rparr>"

text \<open>
  A store with three records, played at the instants 10, 30 and 20, in that order.
\<close>

definition playedLibrary :: Library where
  "playedLibrary = zeldaLibrary
    \<lparr>Games := [zeldaGame\<lparr>LastPlayed := 10\<rparr>,
               zeldaGame\<lparr>ID := ''MARIOK'', LastPlayed := 30\<rparr>,
               zeldaGame\<lparr>ID := ''METROIDQ'', LastPlayed := 20\<rparr>]\<rparr>"

section \<open>Properties of the identity derivation\<close>

lemma decodeAll_ascii:
  "isASCII s \<Longrightarrow> decodeAll s = map (\<lambda>c. (byte c, [c])) s"
  by (induction s) (simp_all add: isASCII_def)

lemma truncateChars_ascii:
  assumes "isASCII s"
  shows "truncateChars n s = take n s"
proof -
  have "concat (map snd (take n (map (\<lambda>c. (byte c, [c])) s))) = take n s"
    by (induction s arbitrary: n) (simp_all add: take_Cons split: nat.splits)
  with assms show ?thesis
    by (simp add: truncateChars_def decodeAll_ascii)
qed

lemma byte_upperByte: "byte c < 0x80 \<Longrightarrow> byte (upperByte c) < 0x80"
  by (auto simp: upperByte_def byte_def)

lemma isASCII_upper: "isASCII s \<Longrightarrow> isASCII (map upperByte s)"
  by (simp add: isASCII_def list_all_iff byte_upperByte)

lemma isASCII_take: "isASCII s \<Longrightarrow> isASCII (take n s)"
  by (auto simp: isASCII_def list_all_iff dest: in_set_takeD)

lemma ToUpper_ascii: "isASCII s \<Longrightarrow> ToUpper tbl s = map upperByte s"
  by (simp add: ToUpper_def)

lemma encodeRune_letter:
  "encodeRune (65 + unat (h mod 26 :: 32 word)) = [char_of (65 + unat h mod 26)]"
proof -
  have "unat (h mod 26) = unat h mod 26"
    by (simp add: unat_mod)
  then show ?thesis
    by (simp add: encodeRune_def)
qed

text \<open>
  C1, as the code has it.  For every path and every case table, \<open>generateID\<close> returns
  the file name without its extension, cut to its first 8 bytes and then upper-cased,
  followed by the letter \<open>'A' + hash mod 26\<close>, where the hash is the 32-bit rolling
  hash with multiplier 31 over the runes of the whole path.  When the name without
  its extension is ASCII, this is the string the specification describes (upper-case,
  then cut to 8 characters).  Being a function of the path and the case tables only,
  \<open>generateID\<close> gives equal IDs for equal paths.
\<close>

theorem generateID_bytes:
  "generateID tbl path =
     ToUpper tbl (take 8 (TrimSuffix (Base path) (Ext path)))
       @ [char_of (65 + unat (pathHash path) mod 26)]
   \<and> (isASCII (TrimSuffix (Base path) (Ext path)) \<longrightarrow>
        generateID tbl path = spec_generateID tbl path)"
proof -
  let ?name = "TrimSuffix (Base path) (Ext path)"
  have cut: "(if 8 < length ?name then take 8 ?name else ?name) = take 8 ?name"
    by simp
  have code: "generateID tbl path =
      ToUpper tbl (take 8 ?name) @ [char_of (65 + unat (pathHash path) mod 26)]"
    unfolding generateID_def Let_def cut encodeRune_letter ..
  have spec: "generateID tbl path = spec_generateID tbl path" if ascii: "isASCII ?name"
  proof -
    have "truncateChars 8 (ToUpper tbl ?name) = ToUpper tbl (take 8 ?name)"
      using ascii
      by (simp add: ToUpper_ascii isASCII_take truncateChars_ascii isASCII_upper take_map)
    then show ?thesis
      unfolding code spec_generateID_def Let_def encodeRune_letter by simp
  qed
  from code spec show ?thesis by blast
qed

theorem generateID_bytes_witness:
  "isASCII (TrimSuffix (Base ''roms/zelda.nes'') (Ext ''roms/zelda.nes''))
   \<and> generateID caselessTable ''roms/zelda.nes'' = ''ZELDAW''
   \<and> spec_generateID caselessTable ''roms/zelda.nes'' = ''ZELDAW''"
proof -
  have name: "TrimSuffix (Base ''roms/zelda.nes'') (Ext ''roms/zelda.nes'') = ''zelda''"
    by (simp add: Base_def Ext_def IsPathSeparator_def TrimSuffix_def HasSuffix_def)
  have ascii: "isASCII (TrimSuffix (Base ''roms/zelda.nes'') (Ext ''roms/zelda.nes''))"
    unfolding name by (simp add: isASCII_def byte_def)
  have letter: "unat (pathHash ''roms/zelda.nes'') mod 26 = 22"
    by (simp add: pathHash_def runes_def byte_def)
  have upper: "ToUpper caselessTable (take 8 ''zelda'') = ''ZELDA''"
    by (simp add: ToUpper_def isASCII_def upperByte_def byte_def char_of_eq_iff)
  have both: "generateID caselessTable ''roms/zelda.nes'' =
      ToUpper caselessTable (take 8 (TrimSuffix (Base ''roms/zelda.nes'') (Ext ''roms/zelda.nes'')))
        @ [char_of (65 + unat (pathHash ''roms/zelda.nes'') mod 26)]
    \<and> generateID caselessTable ''roms/zelda.nes'' = spec_generateID caselessTable ''roms/zelda.nes''"
    using generateID_bytes [of caselessTable "''roms/zelda.nes''"] ascii by blast
  then have code: "generateID caselessTable ''roms/zelda.nes'' = ''ZELDAW''"
    unfolding name letter upper by (simp add: char_of_eq_iff)
  from both have eq: "generateID caselessTable ''roms/zelda.nes'' =
      spec_generateID caselessTable ''roms/zelda.nes''"
    by blast
  have "spec_generateID caselessTable ''roms/zelda.nes'' = ''ZELDAW''"
    unfolding eq [symmetric] by (rule code)
  with code ascii show ?thesis
    by blast
qed

text \<open>
  C1, as the specification words it, fails on a name beyond ASCII.  For the path \<open>kanaPath\<close>
  the specification gives the three katakana and the letter; the code cuts the 9 bytes of the
  name to 8, which splits the third character, and upper-casing turns each of the two
  stray bytes into \<open>U+FFFD\<close>.
\<close>

theorem generateID_chars_counterexample:
  "generateID caselessTable kanaPath =
     [CHR 0xE3, CHR 0x82, CHR 0xBC, CHR 0xE3, CHR 0x83, CHR 0xAB,
      CHR 0xEF, CHR 0xBF, CHR 0xBD, CHR 0xEF, CHR 0xBF, CHR 0xBD, CHR ''B'']
   \<and> spec_generateID caselessTable kanaPath =
     [CHR 0xE3, CHR 0x82, CHR 0xBC, CHR 0xE3, CHR 0x83, CHR 0xAB,
      CHR 0xE3, CHR 0x83, CHR 0x80, CHR ''B'']
   \<and> generateID caselessTable kanaPath \<noteq> spec_generateID caselessTable kanaPath"
proof -
  have name: "TrimSuffix (Base kanaPath) (Ext kanaPath) =
      [CHR 0xE3, CHR 0x82, CHR 0xBC, CHR 0xE3, CHR 0x83, CHR 0xAB, CHR 0xE3, CHR 0x83, CHR 0x80]"
    by (simp add: kanaPath_def Base_def Ext_def IsPathSeparator_def TrimSuffix_def HasSuffix_def)
  have letter: "encodeRune (65 + unat (pathHash kanaPath mod 26)) = ''B''"
    by (simp add: encodeRune_letter)
       (simp add: kanaPath_def pathHash_def runes_def byte_def first_def char_of_eq_iff)
  have code: "ToUpper caselessTable
      [CHR 0xE3, CHR 0x82, CHR 0xBC, CHR 0xE3, CHR 0x83, CHR 0xAB, CHR 0xE3, CHR 0x83] =
      [CHR 0xE3, CHR 0x82, CHR 0xBC, CHR 0xE3, CHR 0x83, CHR 0xAB,
       CHR 0xEF, CHR 0xBF, CHR 0xBD, CHR 0xEF, CHR 0xBF, CHR 0xBD]"
    by (simp add: ToUpper_def isASCII_def Map_runes_def runes_def byte_def first_def
        unicode_ToUpper_def caselessTable_def encodeRune_def RuneError_def char_of_eq_iff)
  have spec: "truncateChars 8 (ToUpper caselessTable
      [CHR 0xE3, CHR 0x82, CHR 0xBC, CHR 0xE3, CHR 0x83, CHR 0xAB, CHR 0xE3, CHR 0x83, CHR 0x80]) =
      [CHR 0xE3, CHR 0x82, CHR 0xBC, CHR 0xE3, CHR 0x83, CHR 0xAB, CHR 0xE3, CHR 0x83, CHR 0x80]"
    by (simp add: ToUpper_def isASCII_def Map_runes_def runes_def byte_def first_def
        unicode_ToUpper_def caselessTable_def encodeRune_def truncateChars_def char_of_eq_iff)
  have g: "generateID caselessTable kanaPath =
     [CHR 0xE3, CHR 0x82, CHR 0xBC, CHR 0xE3, CHR 0x83, CHR 0xAB,
      CHR 0xEF, CHR 0xBF, CHR 0xBD, CHR 0xEF, CHR 0xBF, CHR 0xBD, CHR ''B'']"
    unfolding generateID_def Let_def name letter by (simp add: code)
  have s: "spec_generateID caselessTable kanaPath =
     [CHR 0xE3, CHR 0x82, CHR 0xBC, CHR 0xE3, CHR 0x83, CHR 0xAB,
      CHR 0xE3, CHR 0x83, CHR 0x80, CHR ''B'']"
    unfolding spec_generateID_def Let_def name letter spec by simp
  show ?thesis
    unfolding g s by simp
qed

section \<open>Properties of the lock\<close>

lemma Lock_Unlocked: "mu lib = Unlocked \<Longrightarrow> Lock lib = Some (lib\<lparr>mu := WriteLocked\<rparr>)"
  by (simp add: Lock_def)

lemma Unlock_Locked [simp]: "mu lib = Unlocked \<Longrightarrow> Unlock (lib\<lparr>mu := WriteLocked\<rparr>) = lib"
  by (simp add: Unlock_def)

section \<open>Properties of AddScanPath\<close>

lemma AddScanPath_error:
  "mu lib = Unlocked \<Longrightarrow> Stat env path = Inl e \<Longrightarrow>
   AddScanPath env path lib = (Returns (Some (PathError ''stat'' path e)), lib)"
  by (simp add: AddScanPath_def Lock_Unlocked os_Stat_def)

lemma AddScanPath_nondir:
  "mu lib = Unlocked \<Longrightarrow> Stat env path = Inr info \<Longrightarrow> \<not> IsDir info \<Longrightarrow>
   AddScanPath env path lib = (Returns (Some ErrNotExist), lib)"
  by (simp add: AddScanPath_def Lock_Unlocked os_Stat_def)

lemma AddScanPath_dir:
  "mu lib = Unlocked \<Longrightarrow> Stat env path = Inr info \<Longrightarrow> IsDir info \<Longrightarrow>
   AddScanPath env path lib =
     (Returns None,
      if path \<in> set (ScanPaths lib) then lib
      else lib\<lparr>ScanPaths := ScanPaths lib @ [path]\<rparr>)"
  by (simp add: AddScanPath_def Lock_Unlocked os_Stat_def Unlock_def)

lemma addRepeatedly_present:
  "mu lib = Unlocked \<Longrightarrow> Stat env path = Inr info \<Longrightarrow> IsDir info \<Longrightarrow>
   path \<in> set (ScanPaths lib) \<Longrightarrow>
   addRepeatedly env path n lib = (replicate n (Returns None), lib)"
  by (induction n) (simp_all add: AddScanPath_dir)

lemma addRepeatedly_dir:
  assumes "mu lib = Unlocked" "Stat env path = Inr info" "IsDir info" "0 < n"
  shows "addRepeatedly env path n lib =
     (replicate n (Returns None),
      if path \<in> set (ScanPaths lib) then lib
      else lib\<lparr>ScanPaths := ScanPaths lib @ [path]\<rparr>)"
proof (cases n)
  case 0
  with assms show ?thesis by simp
next
  case (Suc m)
  let ?l = "if path \<in> set (ScanPaths lib) then lib
            else lib\<lparr>ScanPaths := ScanPaths lib @ [path]\<rparr>"
  have first: "AddScanPath env path lib = (Returns None, ?l)"
    using assms by (simp add: AddScanPath_dir)
  have "mu ?l = Unlocked" "path \<in> set (ScanPaths ?l)"
    using assms by auto
  then have "addRepeatedly env path m ?l = (replicate m (Returns None), ?l)"
    using assms by (intro addRepeatedly_present)
  with first Suc show ?thesis
    by (simp del: replicate_Suc add: replicate_Suc [symmetric])
qed

text \<open>
  C5, as the code has it.  On a store whose lock is free, \<open>AddScanPath\<close> returns the
  error of \<open>os.Stat\<close> when that call fails, which is a not-found error exactly when
  the path does not exist; it returns \<open>os.ErrNotExist\<close>, the not-found error itself,
  when the path exists and is not a directory; otherwise it succeeds and appends the
  path unless the list already holds it.  In the first two cases the store is left as
  it was.  Adding a directory \<open>n > 0\<close> times succeeds every time and changes the list
  at most once, so a path that was absent is listed exactly once afterwards.
\<close>

theorem AddScanPath_cases:
  assumes "mu lib = Unlocked"
  shows "(Stat env path = Inl e \<longrightarrow>
            AddScanPath env path lib = (Returns (Some (PathError ''stat'' path e)), lib)
            \<and> (IsNotExist (PathError ''stat'' path e) \<longleftrightarrow> e = ENOENT))
       \<and> (Stat env path = Inr info \<and> \<not> IsDir info \<longrightarrow>
            AddScanPath env path lib = (Returns (Some ErrNotExist), lib)
            \<and> IsNotExist ErrNotExist)
       \<and> (Stat env path = Inr info \<and> IsDir info \<longrightarrow>
            AddScanPath env path lib =
              (Returns None,
               if path \<in> set (ScanPaths lib) then lib
               else lib\<lparr>ScanPaths := ScanPaths lib @ [path]\<rparr>)
            \<and> (0 < n \<longrightarrow>
                 addRepeatedly env path n lib =
                   (replicate n (Returns None),
                    if path \<in> set (ScanPaths lib) then lib
                    else lib\<lparr>ScanPaths := ScanPaths lib @ [path]\<rparr>)
                 \<and> (path \<notin> set (ScanPaths lib) \<longrightarrow>
                      count_list (ScanPaths (snd (addRepeatedly env path n lib))) path = 1)))"
proof (intro conjI impI)
  assume "Stat env path = Inl e"
  with assms show "AddScanPath env path lib = (Returns (Some (PathError ''stat'' path e)), lib)"
    by (rule AddScanPath_error)
next
  show "IsNotExist (PathError ''stat'' path e) \<longleftrightarrow> e = ENOENT"
    by simp
next
  assume "Stat env path = Inr info \<and> \<not> IsDir info"
  with assms show "AddScanPath env path lib = (Returns (Some ErrNotExist), lib)"
    by (simp add: AddScanPath_nondir)
next
  show "IsNotExist ErrNotExist"
    by simp
next
  assume "Stat env path = Inr info \<and> IsDir info"
  with assms show "AddScanPath env path lib =
      (Returns None,
       if path \<in> set (ScanPaths lib) then lib
       else lib\<lparr>ScanPaths := ScanPaths lib @ [path]\<rparr>)"
    by (simp add: AddScanPath_dir)
next
  assume "Stat env path = Inr info \<and> IsDir info" "0 < n"
  with assms show "addRepeatedly env path n lib =
      (replicate n (Returns None),
       if path \<in> set (ScanPaths lib) then lib
       else lib\<lparr>ScanPaths := ScanPaths lib @ [path]\<rparr>)"
    by (simp add: addRepeatedly_dir)
next
  assume "Stat env path = Inr info \<and> IsDir info" "0 < n" "path \<notin> set (ScanPaths lib)"
  with assms show "count_list (ScanPaths (snd (addRepeatedly env path n lib))) path = 1"
    by (simp add: addRepeatedly_dir count_list_0_iff [THEN iffD2])
qed

theorem AddScanPath_cases_witness:
  "AddScanPath romsEnv ''attic'' (emptyLibrary ''library.json'') =
     (Returns (Some (PathError ''stat'' ''attic'' ENOENT)), emptyLibrary ''library.json'')
   \<and> AddScanPath romsEnv ''roms/readme.txt'' (emptyLibrary ''library.json'') =
     (Returns (Some ErrNotExist), emptyLibrary ''library.json'')
   \<and> addRepeatedly romsEnv ''roms'' 3 (emptyLibrary ''library.json'') =
     ([Returns None, Returns None, Returns None],
      (emptyLibrary ''library.json'')\<lparr>ScanPaths := [''roms'']\<rparr>)
   \<and> count_list (ScanPaths (snd (addRepeatedly romsEnv ''roms'' 3 (emptyLibrary ''library.json''))))
        ''roms'' = 1"
proof -
  have free: "mu (emptyLibrary ''library.json'') = Unlocked"
    by (simp add: emptyLibrary_def)
  have none: "ScanPaths (emptyLibrary ''library.json'') = []"
    by (simp add: emptyLibrary_def)
  have a: "Stat romsEnv ''attic'' = Inl ENOENT"
    by (simp add: romsEnv_def quietEnv_def)
  have b: "Stat romsEnv ''roms/readme.txt'' = Inr (FileOf Regular)"
    by (simp add: romsEnv_def quietEnv_def)
  have c: "Stat romsEnv ''roms'' = Inr DirInfo"
    by (simp add: romsEnv_def quietEnv_def)
  from AddScanPath_cases [OF free, of romsEnv "''attic''" ENOENT "FileOf Regular" 1] a
  have 1: "AddScanPath romsEnv ''attic'' (emptyLibrary ''library.json'') =
     (Returns (Some (PathError ''stat'' ''attic'' ENOENT)), emptyLibrary ''library.json'')"
    by blast
  from AddScanPath_cases [OF free, of romsEnv "''roms/readme.txt''" ENOENT "FileOf Regular" 1] b
  have 2: "AddScanPath romsEnv ''roms/readme.txt'' (emptyLibrary ''library.json'') =
     (Returns (Some ErrNotExist), emptyLibrary ''library.json'')"
    by simp
  from AddScanPath_cases [OF free, of romsEnv "''roms''" ENOENT DirInfo 3] c none
  have 3: "addRepeatedly romsEnv ''roms'' 3 (emptyLibrary ''library.json'') =
     (replicate 3 (Returns None),
      (emptyLibrary ''library.json'')\<lparr>ScanPaths := [''roms'']\<rparr>)
    \<and> count_list (ScanPaths (snd (addRepeatedly romsEnv ''roms'' 3 (emptyLibrary ''library.json''))))
        ''roms'' = 1"
    by simp
  from 1 2 3 show ?thesis
    by (simp add: numeral_3_eq_3)
qed

text \<open>
  C5, as the specification words it, fails: for a path that exists and is not a directory the
  error is not one of its own but \<open>os.ErrNotExist\<close>, which \<open>os.IsNotExist\<close> accepts
  just as it accepts the error returned for a missing path.
\<close>

theorem AddScanPath_not_a_directory_counterexample:
  "AddScanPath romsEnv ''roms/readme.txt'' (emptyLibrary ''library.json'') =
     (Returns (Some ErrNotExist), emptyLibrary ''library.json'')
   \<and> IsNotExist ErrNotExist
   \<and> AddScanPath romsEnv ''attic'' (emptyLibrary ''library.json'') =
     (Returns (Some (PathError ''stat'' ''attic'' ENOENT)), emptyLibrary ''library.json'')
   \<and> IsNotExist (PathError ''stat'' ''attic'' ENOENT)"
  by (simp add: AddScanPath_def Lock_def Unlock_def os_Stat_def romsEnv_def quietEnv_def
      emptyLibrary_def)

section \<open>Properties of ToggleFavorite\<close>

lemma toggleFirst_None: "toggleFirst ident games = None \<longleftrightarrow> (\<forall>game\<in>set games. ID game \<noteq> ident)"
  by (induction games) auto

text \<open>
  C7.  On a store whose lock is free, \<open>ToggleFavorite\<close> with an ID that no record
  carries returns no error and leaves the store exactly as it was: the records, the
  scan paths, both count maps, the last-scan timestamp (and the lock and the
  configuration path).
\<close>

theorem ToggleFavorite_unknown_id:
  assumes "mu lib = Unlocked" and "\<forall>game\<in>set (Games lib). ID game \<noteq> ident"
  shows "ToggleFavorite env ident lib = (Returns None, lib)"
proof -
  from assms(2) have "toggleFirst ident (Games lib) = None"
    by (simp add: toggleFirst_None)
  with assms(1) show ?thesis
    by (simp add: ToggleFavorite_def Lock_Unlocked)
qed

theorem ToggleFavorite_unknown_id_witness:
  "mu zeldaLibrary = Unlocked
   \<and> list_all (\<lambda>game. ID game \<noteq> ''NOPE'') (Games zeldaLibrary)
   \<and> ToggleFavorite quietEnv ''NOPE'' zeldaLibrary = (Returns None, zeldaLibrary)"
proof -
  have free: "mu zeldaLibrary = Unlocked"
    by (simp add: zeldaLibrary_def)
  have unknown: "\<forall>game\<in>set (Games zeldaLibrary). ID game \<noteq> ''NOPE''"
    by (simp add: zeldaLibrary_def zeldaGame_def)
  from ToggleFavorite_unknown_id [OF free unknown, of quietEnv] free unknown
  show ?thesis
    by (simp add: list_all_iff)
qed

section \<open>Properties of Scan\<close>

lemma scanEntry_cases:
  "scanEntry env path info err lib =
    (if reportsFile (path, info, err) \<and> mapped env path
     then lib\<lparr>Games := Games lib @ [recordOf env path],
              Platforms := increment (Platforms lib) (Platform (recordOf env path)),
              Categories := increment (Categories lib) (Category (recordOf env path))\<rparr>
     else lib)"
proof (cases err)
  case (Some e)
  then show ?thesis
    by (cases info) (simp_all add: scanEntry_def)
next
  case None
  then show ?thesis
    by (cases info) (simp_all add: scanEntry_def Let_def mapped_def recordOf_def)
qed

lemma scanAll_Nil [simp]: "scanAll env [] lib = lib"
  by (simp add: scanAll_def)

lemma scanAll_Cons [simp]:
  "scanAll env ((path, info, err) # visits) lib = scanAll env visits (scanEntry env path info err lib)"
  by (simp add: scanAll_def)

lemma scanAll_frame [simp]:
  "mu (scanAll env visits lib) = mu lib"
  "ScanPaths (scanAll env visits lib) = ScanPaths lib"
  "LastScan (scanAll env visits lib) = LastScan lib"
  "configPath (scanAll env visits lib) = configPath lib"
  by (induction visits arbitrary: lib; auto simp: scanEntry_cases)+

lemma scanAll_Games:
  "Games (scanAll env visits lib) =
     Games lib @ map (recordOf env) (filter (mapped env) (map fst (filter reportsFile visits)))"
  by (induction visits arbitrary: lib) (auto simp: scanEntry_cases)

lemma Walk_scanAll: "Walk env root (scanEntry env) lib = scanAll env (walk root (Tree env root)) lib"
  by (simp add: Walk_def scanAll_def)

lemma scanRoots_Nil [simp]: "scanRoots env [] lib = lib"
  by (simp add: scanRoots_def)

lemma scanRoots_Cons [simp]:
  "scanRoots env (root # roots) lib =
     scanRoots env roots (scanAll env (walk root (Tree env root)) lib)"
  by (simp add: scanRoots_def Walk_scanAll)

lemma scanRoots_frame [simp]:
  "mu (scanRoots env roots lib) = mu lib"
  "ScanPaths (scanRoots env roots lib) = ScanPaths lib"
  "LastScan (scanRoots env roots lib) = LastScan lib"
  "configPath (scanRoots env roots lib) = configPath lib"
  by (induction roots arbitrary: lib; simp)+

lemma scanRoots_Games:
  "Games (scanRoots env roots lib) =
     Games lib @ map (recordOf env) (filter (mapped env) (concat (map (visitedFiles env) roots)))"
  by (induction roots arbitrary: lib) (simp_all add: scanAll_Games visitedFiles_def)

lemma Save_locked: "mu lib = WriteLocked \<Longrightarrow> Save env lib = (Blocks, lib)"
  by (simp add: Save_def Lock_def)

text \<open>The store \<open>Scan\<close> leaves behind when it starts with the lock free.\<close>

lemma Scan_Unlocked:
  assumes "mu lib = Unlocked"
  shows "Scan env lib =
    (Blocks, (scanRoots env (ScanPaths lib)
                (lib\<lparr>mu := WriteLocked, Games := [], Categories := Map.empty,
                     Platforms := Map.empty\<rparr>))\<lparr>LastScan := Now env\<rparr>)"
proof -
  let ?l1 = "lib\<lparr>mu := WriteLocked, Games := [], Categories := Map.empty, Platforms := Map.empty\<rparr>"
  let ?l3 = "(scanRoots env (ScanPaths lib) ?l1)\<lparr>LastScan := Now env\<rparr>"
  have "mu ?l3 = WriteLocked"
    by simp
  then have "Save env ?l3 = (Blocks, ?l3)"
    by (rule Save_locked)
  with assms show ?thesis
    by (simp add: Scan_def Lock_Unlocked Let_def scanRoots_def)
qed

text \<open>
  C4.  The specification has \<open>Scan\<close> return the error of a failed write.  In the code
  \<open>Scan\<close> never returns, whatever the store and the world: with the lock held by
  another call it waits at its first statement, and otherwise it takes the lock itself
  and waits in \<open>Save\<close> for the same lock, before anything is written.  The store it
  leaves in memory is the same whatever the encoding and the write would have done.
\<close>

theorem Scan_blocks:
  "fst (Scan env lib) = Blocks
   \<and> snd (Scan (env\<lparr>MarshalIndent := marshal, WriteFile := write\<rparr>) lib) = snd (Scan env lib)"
proof (cases "mu lib = Unlocked")
  case True
  let ?env = "env\<lparr>MarshalIndent := marshal, WriteFile := write\<rparr>"
  have "scanEntry ?env = scanEntry env"
    by (intro ext) (simp add: scanEntry_cases mapped_def recordOf_def)
  then have "scanRoots ?env roots l = scanRoots env roots l" for roots l
    by (simp add: scanRoots_def Walk_def)
  with True show ?thesis
    by (simp add: Scan_Unlocked)
next
  case False
  then show ?thesis
    by (simp add: Scan_def Lock_def)
qed

text \<open>
  A fresh store in a world where every write fails for lack of space: \<open>Scan\<close> blocks
  with the lock held and reports nothing.
\<close>

theorem Scan_blocks_example:
  "Scan (quietEnv\<lparr>WriteFile := (\<lambda>path bytes. Some (PathError ''open'' path ENOSPC))\<rparr>)
        (emptyLibrary ''library.json'') =
     (Blocks, (emptyLibrary ''library.json'')\<lparr>mu := WriteLocked\<rparr>)"
  by (simp add: Scan_def Lock_def Let_def Save_def emptyLibrary_def quietEnv_def zeroTime_def)


lemma detectIn_member:
  "detectIn tbl ext = platform \<Longrightarrow> platform \<noteq> [] \<Longrightarrow>
   \<exists>extensions. (platform, extensions) \<in> set tbl \<and> ext \<in> set extensions"
proof (induction tbl)
  case Nil
  then show ?case by simp
next
  case (Cons entry tbl)
  obtain p es where entry: "entry = (p, es)"
    by (cases entry)
  show ?case
  proof (cases "ext \<in> set es")
    case True
    with Cons.prems entry show ?thesis by auto
  next
    case False
    with Cons.prems entry have "detectIn tbl ext = platform" by simp
    with Cons.IH Cons.prems(2) obtain extensions
      where "(platform, extensions) \<in> set tbl" "ext \<in> set extensions"
      by blast
    then show ?thesis by auto
  qed
qed

lemma detectIn_first:
  assumes "(platform, extensions) \<in> set tbl" and "ext \<in> set extensions"
    and "\<forall>(p, es)\<in>set tbl. ext \<in> set es \<longrightarrow> p = platform"
  shows "detectIn tbl ext = platform"
  using assms
proof (induction tbl)
  case Nil
  then show ?case by simp
next
  case (Cons entry tbl)
  obtain p es where entry: "entry = (p, es)"
    by (cases entry)
  show ?case
  proof (cases "ext \<in> set es")
    case True
    with Cons.prems(3) entry show ?thesis by simp
  next
    case False
    with Cons.prems entry have "(platform, extensions) \<in> set tbl"
      by auto
    moreover from Cons.prems(3) have "\<forall>(p, es)\<in>set tbl. ext \<in> set es \<longrightarrow> p = platform"
      by simp
    ultimately have "detectIn tbl ext = platform"
      using Cons.prems(2) Cons.IH by blast
    with False entry show ?thesis by simp
  qed
qed

lemma detectIn_none:
  "\<forall>(p, es)\<in>set tbl. ext \<notin> set es \<Longrightarrow> detectIn tbl ext = []"
  by (induction tbl) auto


lemma platformExtensions_checked:
  "list_all (\<lambda>(p, es). p \<noteq> [] \<and> list_all (\<lambda>e. detectPlatform e = p) es) platformExtensions"
  by (simp add: platformExtensions_def detectPlatform_def)

lemma detectPlatform_entry:
  assumes "(p, es) \<in> set platformExtensions" and "ext \<in> set es"
  shows "detectPlatform ext = p"
proof -
  from platformExtensions_checked assms(1) have "list_all (\<lambda>e. detectPlatform e = p) es"
    unfolding list_all_iff by blast
  with assms(2) show ?thesis
    unfolding list_all_iff by blast
qed

text \<open>
  The order in which the loop of \<open>detectPlatform\<close> meets the entries of the table
  does not matter: no extension stands under two platforms.
\<close>

lemma detectPlatform_any_order:
  assumes "set tbl = set platformExtensions"
  shows "detectIn tbl ext = detectPlatform ext"
proof (cases "\<exists>p es. (p, es) \<in> set platformExtensions \<and> ext \<in> set es")
  case True
  then obtain p es where in_tbl: "(p, es) \<in> set platformExtensions" "ext \<in> set es"
    by blast
  then have p: "detectPlatform ext = p"
    by (rule detectPlatform_entry)
  have "q = p" if "(q, fs) \<in> set tbl" and "ext \<in> set fs" for q fs
  proof -
    from that(1) have "(q, fs) \<in> set platformExtensions"
      unfolding assms .
    then have "detectPlatform ext = q"
      using that(2) by (rule detectPlatform_entry)
    with p show ?thesis
      by simp
  qed
  then have unique: "\<forall>(q, fs)\<in>set tbl. ext \<in> set fs \<longrightarrow> q = p"
    by blast
  from in_tbl(1) have "(p, es) \<in> set tbl"
    unfolding assms .
  then have "detectIn tbl ext = p"
    using in_tbl(2) unique by (rule detectIn_first)
  with p show ?thesis
    by simp
next
  case False
  then have none: "\<forall>(p, es)\<in>set platformExtensions. ext \<notin> set es"
    by blast
  then have "\<forall>(p, es)\<in>set tbl. ext \<notin> set es"
    unfolding assms .
  with none show ?thesis
    by (simp add: detectPlatform_def detectIn_none)
qed

lemma detectPlatform_member:
  "detectPlatform ext \<noteq> [] \<Longrightarrow>
   \<exists>extensions. (detectPlatform ext, extensions) \<in> set platformExtensions \<and> ext \<in> set extensions"
  unfolding detectPlatform_def by (rule detectIn_member) simp_all

lemma visitedFiles_iff:
  "path \<in> set (visitedFiles env root) \<longleftrightarrow>
   (\<exists>info. (path, Some info, None) \<in> set (walk root (Tree env root)) \<and> \<not> IsDir info)"
proof -
  have "reportsFile v \<longleftrightarrow> (\<exists>info. v = (fst v, Some info, None) \<and> \<not> IsDir info)" for v
    by (cases v rule: reportsFile.cases) auto
  then show ?thesis
    unfolding visitedFiles_def by (force simp: image_iff)
qed

lemma Scan_Games:
  assumes "mu lib = Unlocked"
  shows "Games (snd (Scan env lib)) =
     map (recordOf env) (filter (mapped env) (concat (map (visitedFiles env) (ScanPaths lib))))"
  using assms by (simp add: Scan_Unlocked scanRoots_Games)

text \<open>
  C2, as the code has it.  \<open>Scan\<close> does not return (it waits in \<open>Save\<close>); the
  statement is about the store it has built when it stops, having started with the
  lock free.  The records are, in order, those of the paths with a mapped extension
  among the entries that \<open>Walk\<close> reports under the scan paths without an error and
  that are not directories.  So every record comes from such an entry (a regular
  file, a symbolic link or another special file), its lower-cased extension is listed
  in the table under its platform, its ID is \<open>generateID\<close> of its path, its title is
  \<open>cleanGameTitle\<close> of the base name, its category is \<open>"Uncategorized"\<close>; and a path
  whose lower-cased extension is listed under no platform has no record.
\<close>

theorem Scan_records:
  assumes "mu lib = Unlocked"
  shows "Games (snd (Scan env lib)) =
       map (recordOf env) (filter (mapped env) (concat (map (visitedFiles env) (ScanPaths lib))))
     \<and> (\<forall>game\<in>set (Games (snd (Scan env lib))).
          (\<exists>root\<in>set (ScanPaths lib). \<exists>info.
              (Path game, Some info, None) \<in> set (walk root (Tree env root)) \<and> \<not> IsDir info)
          \<and> (\<exists>extensions. (Platform game, extensions) \<in> set platformExtensions
                \<and> ToLower (LowerCase env) (Ext (Path game)) \<in> set extensions)
          \<and> Platform game = detectPlatform (ToLower (LowerCase env) (Ext (Path game)))
          \<and> ID game = generateID (UpperCase env) (Path game)
          \<and> Title game = cleanGameTitle (Base (Path game))
          \<and> Category game = ''Uncategorized'')
     \<and> (\<forall>path. (\<forall>(platform, extensions)\<in>set platformExtensions.
                    ToLower (LowerCase env) (Ext path) \<notin> set extensions) \<longrightarrow>
            path \<notin> Path ` set (Games (snd (Scan env lib))))"
proof (intro conjI ballI allI impI)
  show "Games (snd (Scan env lib)) =
      map (recordOf env) (filter (mapped env) (concat (map (visitedFiles env) (ScanPaths lib))))"
    using assms by (rule Scan_Games)
next
  fix game
  assume "game \<in> set (Games (snd (Scan env lib)))"
  then obtain path root where game: "game = recordOf env path" and is_mapped: "mapped env path"
    and root: "root \<in> set (ScanPaths lib)" and visited: "path \<in> set (visitedFiles env root)"
    unfolding Scan_Games [OF assms] by auto
  have path: "Path game = path"
    by (simp add: game recordOf_def)
  from visited root show "\<exists>root\<in>set (ScanPaths lib). \<exists>info.
      (Path game, Some info, None) \<in> set (walk root (Tree env root)) \<and> \<not> IsDir info"
    unfolding path visitedFiles_iff by blast
  show platform: "Platform game = detectPlatform (ToLower (LowerCase env) (Ext (Path game)))"
    by (simp add: game recordOf_def)
  from is_mapped show "\<exists>extensions. (Platform game, extensions) \<in> set platformExtensions
      \<and> ToLower (LowerCase env) (Ext (Path game)) \<in> set extensions"
    unfolding platform path mapped_def by (rule detectPlatform_member)
  show "ID game = generateID (UpperCase env) (Path game)"
    by (simp add: game recordOf_def)
  show "Title game = cleanGameTitle (Base (Path game))"
    by (simp add: game recordOf_def)
  show "Category game = ''Uncategorized''"
    by (simp add: game recordOf_def)
next
  fix path
  assume unmapped: "\<forall>(platform, extensions)\<in>set platformExtensions.
      ToLower (LowerCase env) (Ext path) \<notin> set extensions"
  show "path \<notin> Path ` set (Games (snd (Scan env lib)))"
  proof
    assume "path \<in> Path ` set (Games (snd (Scan env lib)))"
    then obtain p where "path = Path (recordOf env p)" "mapped env p"
      unfolding Scan_Games [OF assms] by auto
    then have "mapped env path"
      by (simp add: recordOf_def)
    then obtain extensions where
      "(detectPlatform (ToLower (LowerCase env) (Ext path)), extensions) \<in> set platformExtensions"
      "ToLower (LowerCase env) (Ext path) \<in> set extensions"
      unfolding mapped_def using detectPlatform_member by blast
    with unmapped show False
      by blast
  qed
qed


theorem Scan_records_witness:
  "mu romsLibrary = Unlocked
   \<and> map Path (Games (snd (Scan romsEnv romsLibrary))) = [''roms/mario.sfc'', ''roms/zelda.nes'']
   \<and> map Platform (Games (snd (Scan romsEnv romsLibrary))) = [''SNES'', ''NES'']
   \<and> list_all (\<lambda>game. ID game = generateID (UpperCase romsEnv) (Path game)
                  \<and> Title game = cleanGameTitle (Base (Path game))
                  \<and> Category game = ''Uncategorized'')
        (Games (snd (Scan romsEnv romsLibrary)))
   \<and> ''roms/readme.txt'' \<notin> Path ` set (Games (snd (Scan romsEnv romsLibrary)))"
proof -
  have free: "mu romsLibrary = Unlocked"
    by (simp add: romsLibrary_def emptyLibrary_def)
  have files: "visitedFiles romsEnv ''roms'' = [''roms/mario.sfc'', ''roms/readme.txt'', ''roms/zelda.nes'']"
    by (simp add: visitedFiles_def romsEnv_def quietEnv_def)
  have exts: "ToLower (LowerCase romsEnv) (Ext ''roms/mario.sfc'') = ''.sfc''"
    "ToLower (LowerCase romsEnv) (Ext ''roms/readme.txt'') = ''.txt''"
    "ToLower (LowerCase romsEnv) (Ext ''roms/zelda.nes'') = ''.nes''"
    by (simp_all add: Ext_def IsPathSeparator_def ToLower_def isASCII_def lowerByte_def byte_def)
  have platforms: "detectPlatform ''.sfc'' = ''SNES''" "detectPlatform ''.txt'' = []"
    "detectPlatform ''.nes'' = ''NES''"
    by (simp_all add: detectPlatform_def platformExtensions_def)
  have paths: "filter (mapped romsEnv) (concat (map (visitedFiles romsEnv) (ScanPaths romsLibrary)))
      = [''roms/mario.sfc'', ''roms/zelda.nes'']"
    by (simp add: romsLibrary_def emptyLibrary_def files mapped_def exts platforms)
  note main = Scan_records [OF free, of romsEnv]
  from main have games: "Games (snd (Scan romsEnv romsLibrary)) =
      [recordOf romsEnv ''roms/mario.sfc'', recordOf romsEnv ''roms/zelda.nes'']"
    unfolding paths by simp
  from main have each: "list_all (\<lambda>game. ID game = generateID (UpperCase romsEnv) (Path game)
                  \<and> Title game = cleanGameTitle (Base (Path game))
                  \<and> Category game = ''Uncategorized'')
        (Games (snd (Scan romsEnv romsLibrary)))"
    unfolding list_all_iff by blast
  have "\<forall>(platform, extensions)\<in>set platformExtensions.
      ToLower (LowerCase romsEnv) (Ext ''roms/readme.txt'') \<notin> set extensions"
    unfolding exts by (simp add: platformExtensions_def)
  with main have skipped: "''roms/readme.txt'' \<notin> Path ` set (Games (snd (Scan romsEnv romsLibrary)))"
    by blast
  have "map Path (Games (snd (Scan romsEnv romsLibrary))) = [''roms/mario.sfc'', ''roms/zelda.nes'']"
    "map Platform (Games (snd (Scan romsEnv romsLibrary))) = [''SNES'', ''NES'']"
    unfolding games by (simp_all add: recordOf_def exts platforms)
  with free each skipped show ?thesis
    by blast
qed

text \<open>
  C2, as the specification words it, fails where it says that every record comes from a
  regular file: \<open>Scan\<close> skips directories only.  In the world \<open>romsEnv\<close> the entry
  \<open>roms/mario.sfc\<close> is a symbolic link, and the scan gives it a record.
\<close>

theorem Scan_regular_file_counterexample:
  "walk ''roms'' (Tree romsEnv ''roms'') =
     [(''roms'', Some DirInfo, None),
      (''roms/mario.sfc'', Some (FileOf Symlink), None),
      (''roms/readme.txt'', Some (FileOf Regular), None),
      (''roms/zelda.nes'', Some (FileOf Regular), None)]
   \<and> \<not> IsRegular (FileOf Symlink)
   \<and> map Path (Games (snd (Scan romsEnv romsLibrary))) = [''roms/mario.sfc'', ''roms/zelda.nes'']"
proof -
  have free: "mu romsLibrary = Unlocked"
    by (simp add: romsLibrary_def emptyLibrary_def)
  have visits: "walk ''roms'' (Tree romsEnv ''roms'') =
     [(''roms'', Some DirInfo, None),
      (''roms/mario.sfc'', Some (FileOf Symlink), None),
      (''roms/readme.txt'', Some (FileOf Regular), None),
      (''roms/zelda.nes'', Some (FileOf Regular), None)]"
    by (simp add: romsEnv_def quietEnv_def)
  have exts: "ToLower (LowerCase romsEnv) (Ext ''roms/mario.sfc'') = ''.sfc''"
    "ToLower (LowerCase romsEnv) (Ext ''roms/readme.txt'') = ''.txt''"
    "ToLower (LowerCase romsEnv) (Ext ''roms/zelda.nes'') = ''.nes''"
    by (simp_all add: Ext_def IsPathSeparator_def ToLower_def isASCII_def lowerByte_def byte_def)
  have platforms: "detectPlatform ''.sfc'' = ''SNES''" "detectPlatform ''.txt'' = []"
    "detectPlatform ''.nes'' = ''NES''"
    by (simp_all add: detectPlatform_def platformExtensions_def)
  have "map Path (Games (snd (Scan romsEnv romsLibrary))) = [''roms/mario.sfc'', ''roms/zelda.nes'']"
    unfolding Scan_Games [OF free]
    by (simp add: romsLibrary_def emptyLibrary_def visitedFiles_def visits mapped_def exts
        platforms recordOf_def)
  with visits show ?thesis
    by simp
qed

text \<open>The record of the example store is the one a scan builds for its path.\<close>

lemma zeldaGame_scanned: "recordOf romsEnv ''roms/zelda.nes'' = zeldaGame"
proof -
  have base: "Base ''roms/zelda.nes'' = ''zelda.nes''"
    by (simp add: Base_def IsPathSeparator_def)
  have ext: "Ext ''roms/zelda.nes'' = ''.nes''" "Ext ''zelda.nes'' = ''.nes''"
    by (simp_all add: Ext_def IsPathSeparator_def)
  have title: "cleanGameTitle ''zelda.nes'' = ''zelda''"
    by (simp add: cleanGameTitle_def ext TrimSuffix_def HasSuffix_def ReplaceAll_def
        TrimSpace_def byte_def IsSpace_def)
  have lower: "ToLower (LowerCase romsEnv) ''.nes'' = ''.nes''"
    by (simp add: ToLower_def isASCII_def lowerByte_def byte_def)
  have platform: "detectPlatform ''.nes'' = ''NES''"
    by (simp add: detectPlatform_def platformExtensions_def)
  have name: "TrimSuffix ''zelda.nes'' ''.nes'' = ''zelda''"
    by (simp add: TrimSuffix_def HasSuffix_def)
  have letter: "unat (pathHash ''roms/zelda.nes'') mod 26 = 22"
    by (simp add: pathHash_def runes_def byte_def)
  have upper: "ToUpper (UpperCase romsEnv) ''zelda'' = ''ZELDA''"
    by (simp add: ToUpper_def isASCII_def upperByte_def byte_def char_of_eq_iff)
  have ident: "generateID (UpperCase romsEnv) ''roms/zelda.nes'' = ''ZELDAW''"
    by (simp add: generateID_def Let_def base ext name upper encodeRune_letter letter char_of_eq_iff)
  show ?thesis
    by (simp add: recordOf_def zeldaGame_def base ext title lower platform ident)
qed

section \<open>Properties of the count maps\<close>

lemma countOf_append:
  "countOf field (games @ [game]) k =
    (if k = field game
     then Some ((case countOf field games k of None \<Rightarrow> 0 | Some n \<Rightarrow> n) + 1)
     else countOf field games k)"
  by (simp add: countOf_def)

lemma consistent_append:
  assumes "consistent lib"
  shows "consistent (lib\<lparr>Games := Games lib @ [game],
                        Platforms := increment (Platforms lib) (Platform game),
                        Categories := increment (Categories lib) (Category game)\<rparr>)"
  using assms by (simp add: consistent_def increment_def countOf_append)

lemma consistent_scanEntry: "consistent lib \<Longrightarrow> consistent (scanEntry env path info err lib)"
  by (simp add: scanEntry_cases consistent_append)

lemma consistent_scanAll: "consistent lib \<Longrightarrow> consistent (scanAll env visits lib)"
  by (induction visits arbitrary: lib) (auto simp: consistent_scanEntry)

lemma consistent_scanRoots: "consistent lib \<Longrightarrow> consistent (scanRoots env roots lib)"
  by (induction roots arbitrary: lib) (simp_all add: consistent_scanAll)

lemma consistent_frame [simp]:
  "consistent (lib\<lparr>mu := m\<rparr>) = consistent lib"
  "consistent (lib\<lparr>LastScan := t\<rparr>) = consistent lib"
  by (simp_all add: consistent_def)

lemma consistent_Scan:
  assumes "mu lib = Unlocked"
  shows "consistent (snd (Scan env lib))"
proof -
  have "consistent (lib\<lparr>mu := WriteLocked, Games := [], Categories := Map.empty,
      Platforms := Map.empty\<rparr>)"
    by (simp add: consistent_def countOf_def)
  then show ?thesis
    by (simp add: Scan_Unlocked [OF assms] consistent_scanRoots)
qed

lemma toggleFirst_fields:
  "toggleFirst ident games = Some games' \<Longrightarrow>
   map Platform games' = map Platform games \<and> map Category games' = map Category games"
  by (induction games arbitrary: games') (auto split: if_splits)

lemma countOf_map:
  "countOf field games k =
    (if length (filter (\<lambda>x. x = k) (map field games)) = 0 then None
     else Some (int (length (filter (\<lambda>x. x = k) (map field games)))))"
  by (simp add: countOf_def filter_map comp_def)

lemma consistent_Games:
  assumes "consistent lib" and "map Platform games = map Platform (Games lib)"
    and "map Category games = map Category (Games lib)"
  shows "consistent (lib\<lparr>Games := games\<rparr>)"
  using assms by (simp add: consistent_def countOf_map)

lemma consistent_ToggleFavorite:
  assumes "consistent lib"
  shows "consistent (snd (ToggleFavorite env ident lib))"
proof (cases "Lock lib")
  case None
  with assms show ?thesis
    by (simp add: ToggleFavorite_def)
next
  case (Some l)
  then have l: "l = lib\<lparr>mu := WriteLocked\<rparr>"
    by (auto simp: Lock_def split: if_splits)
  show ?thesis
  proof (cases "toggleFirst ident (Games lib)")
    case None
    with Some assms show ?thesis
      by (simp add: ToggleFavorite_def l Unlock_def)
  next
    case (Some games)
    from toggleFirst_fields [OF Some] assms have "consistent (lib\<lparr>Games := games\<rparr>)"
      by (intro consistent_Games) simp_all
    with Some \<open>Lock lib = Some l\<close> show ?thesis
      by (simp add: ToggleFavorite_def l Unlock_def Let_def consistent_def)
  qed
qed

lemma RLock_cases:
  "RLock lib = None \<or> (\<exists>m. RLock lib = Some (lib\<lparr>mu := m\<rparr>))"
  by (cases "mu lib") (auto simp: RLock_def)

lemma RUnlock_cases: "\<exists>m. RUnlock lib = lib\<lparr>mu := m\<rparr>"
proof (cases "mu lib")
  case (ReadLocked n)
  then show ?thesis
    by (cases "n \<le> 1") (auto simp: RUnlock_def)
next
  case Unlocked
  then have "RUnlock lib = lib\<lparr>mu := Unlocked\<rparr>"
    by (simp add: RUnlock_def)
  then show ?thesis by blast
next
  case WriteLocked
  then have "RUnlock lib = lib\<lparr>mu := WriteLocked\<rparr>"
    by (simp add: RUnlock_def)
  then show ?thesis by blast
qed

lemma consistent_RUnlock [simp]: "consistent (RUnlock lib) = consistent lib"
proof -
  obtain m where "RUnlock lib = lib\<lparr>mu := m\<rparr>"
    using RUnlock_cases by blast
  then show ?thesis by simp
qed

lemma consistent_readers:
  assumes "consistent lib"
  shows "consistent (snd (GetGames platform category lib))"
    and "consistent (snd (GetGameByID ident lib))"
    and "consistent (snd (GetFavorites lib))"
    and "consistent (snd (GetRecentlyPlayed limit lib))"
  using assms RLock_cases [of lib]
  by (auto simp: GetGames_def GetGameByID_def GetFavorites_def GetRecentlyPlayed_def Let_def)


text \<open>
  C10.  The store \<open>Scan\<close> has built when it stops, having started with the lock
  free, is consistent: for every platform name the entry of \<open>Platforms\<close> is the number
  of records with that platform, and there is no entry when there is no such record;
  likewise for \<open>Categories\<close>.  \<open>ToggleFavorite\<close>, \<open>GetGames\<close>, \<open>GetGameByID\<close>,
  \<open>GetFavorites\<close> and \<open>GetRecentlyPlayed\<close> leave a consistent store consistent.
\<close>

theorem counts_consistent:
  "(mu lib = Unlocked \<longrightarrow> consistent (snd (Scan env lib)))
   \<and> (consistent lib \<longrightarrow>
        consistent (snd (ToggleFavorite env ident lib))
        \<and> consistent (snd (GetGames platform category lib))
        \<and> consistent (snd (GetGameByID ident lib))
        \<and> consistent (snd (GetFavorites lib))
        \<and> consistent (snd (GetRecentlyPlayed limit lib)))"
  by (simp add: consistent_Scan consistent_ToggleFavorite consistent_readers)

theorem counts_consistent_witness:
  "mu romsLibrary = Unlocked
   \<and> consistent (snd (Scan romsEnv romsLibrary))
   \<and> Platforms (snd (Scan romsEnv romsLibrary)) ''NES'' = Some 1
   \<and> Platforms (snd (Scan romsEnv romsLibrary)) ''GBA'' = None
   \<and> Categories (snd (Scan romsEnv romsLibrary)) ''Uncategorized'' = Some 2
   \<and> consistent zeldaLibrary
   \<and> consistent (snd (ToggleFavorite quietEnv ''ZELDAW'' zeldaLibrary))
   \<and> map Favorite (Games (snd (ToggleFavorite quietEnv ''ZELDAW'' zeldaLibrary))) = [True]
   \<and> consistent (snd (GetGames ''NES'' [] zeldaLibrary))
   \<and> consistent (snd (GetGameByID ''ZELDAW'' zeldaLibrary))
   \<and> consistent (snd (GetFavorites zeldaLibrary))
   \<and> consistent (snd (GetRecentlyPlayed 1 zeldaLibrary))"
proof -
  have free: "mu romsLibrary = Unlocked"
    by (simp add: romsLibrary_def emptyLibrary_def)
  have start: "consistent zeldaLibrary"
    by (auto simp: consistent_def countOf_def zeldaLibrary_def zeldaGame_def)
  have scanned: "consistent (snd (Scan romsEnv romsLibrary))"
    using counts_consistent [of romsLibrary romsEnv] free by blast
  have kept: "consistent (snd (ToggleFavorite quietEnv ''ZELDAW'' zeldaLibrary))
      \<and> consistent (snd (GetGames ''NES'' [] zeldaLibrary))
      \<and> consistent (snd (GetGameByID ''ZELDAW'' zeldaLibrary))
      \<and> consistent (snd (GetFavorites zeldaLibrary))
      \<and> consistent (snd (GetRecentlyPlayed 1 zeldaLibrary))"
    using counts_consistent [of zeldaLibrary quietEnv "''ZELDAW''" "''NES''" "[]" 1] start
    by blast
  have exts: "ToLower (LowerCase romsEnv) (Ext ''roms/mario.sfc'') = ''.sfc''"
    "ToLower (LowerCase romsEnv) (Ext ''roms/readme.txt'') = ''.txt''"
    "ToLower (LowerCase romsEnv) (Ext ''roms/zelda.nes'') = ''.nes''"
    by (simp_all add: Ext_def IsPathSeparator_def ToLower_def isASCII_def lowerByte_def byte_def)
  have platforms: "detectPlatform ''.sfc'' = ''SNES''" "detectPlatform ''.txt'' = []"
    "detectPlatform ''.nes'' = ''NES''"
    by (simp_all add: detectPlatform_def platformExtensions_def)
  have fields: "map Platform (Games (snd (Scan romsEnv romsLibrary))) = [''SNES'', ''NES'']"
    "map Category (Games (snd (Scan romsEnv romsLibrary))) = [''Uncategorized'', ''Uncategorized'']"
    unfolding Scan_Games [OF free]
    by (simp_all add: romsLibrary_def emptyLibrary_def visitedFiles_def romsEnv_def quietEnv_def
        mapped_def exts [unfolded romsEnv_def quietEnv_def, simplified] platforms recordOf_def)
  from scanned have entries:
    "Platforms (snd (Scan romsEnv romsLibrary)) ''NES'' = Some 1"
    "Platforms (snd (Scan romsEnv romsLibrary)) ''GBA'' = None"
    "Categories (snd (Scan romsEnv romsLibrary)) ''Uncategorized'' = Some 2"
    unfolding consistent_def by (simp_all add: countOf_map fields)
  have flag: "map Favorite (Games (snd (ToggleFavorite quietEnv ''ZELDAW'' zeldaLibrary))) = [True]"
    by (simp add: ToggleFavorite_def Lock_def Unlock_def zeldaLibrary_def zeldaGame_def Let_def)
  from free scanned entries start kept flag show ?thesis
    by blast
qed

section \<open>Properties of the request handler\<close>

text \<open>
  C8.  On a store whose lock is free, a \<open>get_game\<close> request whose payload decodes
  to the string \<open>ident\<close> is answered as follows.  When no record carries that ID, the
  response has type \<open>"error"\<close>, the ID of the request, no success, and the error text
  \<open>"Game not found"\<close>.  When a record carries it, the response has type \<open>"success"\<close>,
  the ID of the request, success, and as data the first record with that ID.  The
  store is as before.
\<close>

theorem get_game_response:
  assumes "mu lib = Unlocked" and "ReqType req = ''get_game''"
    and "Payload req = Some raw" and "UnmarshalString env raw = Inr ident"
  shows "((\<forall>game\<in>set (Games lib). ID game \<noteq> ident) \<longrightarrow>
           handleRequest env req lib =
             (Returns \<lparr>RespType = ''error'', RespID = ReqID req, Success = False,
                       Data = NoData, Error = ''Game not found''\<rparr>, lib))
       \<and> ((\<exists>game\<in>set (Games lib). ID game = ident) \<longrightarrow>
           (\<exists>game\<in>set (Games lib). ID game = ident
              \<and> find (\<lambda>game. ID game = ident) (Games lib) = Some game
              \<and> handleRequest env req lib =
                  (Returns \<lparr>RespType = ''success'', RespID = ReqID req, Success = True,
                            Data = Game game, Error = []\<rparr>, lib)))"
proof -
  have ident: "payloadID env req = ident"
    using assms(3,4) by (simp add: payloadID_def)
  have lookup: "GetGameByID ident lib = (Returns (find (\<lambda>game. ID game = ident) (Games lib)), lib)"
    using assms(1) by (simp add: GetGameByID_def RLock_def RUnlock_def)
  have dispatch: "handleRequest env req lib =
      (case find (\<lambda>game. ID game = ident) (Games lib) of
         None \<Rightarrow> (Returns \<lparr>RespType = ''error'', RespID = ReqID req, Success = False,
                           Data = NoData, Error = ''Game not found''\<rparr>, lib)
       | Some game \<Rightarrow> (Returns \<lparr>RespType = ''success'', RespID = ReqID req, Success = True,
                                Data = Game game, Error = []\<rparr>, lib))"
    using assms(2)
    by (simp add: handleRequest_def ident lookup MsgTypeListGames_def MsgTypeGetGame_def
        MsgTypeError_def MsgTypeSuccess_def split: option.split)
  show ?thesis
  proof (intro conjI impI)
    assume "\<forall>game\<in>set (Games lib). ID game \<noteq> ident"
    then have "find (\<lambda>game. ID game = ident) (Games lib) = None"
      by (simp add: find_None_iff)
    then show "handleRequest env req lib =
        (Returns \<lparr>RespType = ''error'', RespID = ReqID req, Success = False,
                  Data = NoData, Error = ''Game not found''\<rparr>, lib)"
      by (simp add: dispatch)
  next
    assume "\<exists>game\<in>set (Games lib). ID game = ident"
    then obtain game where found: "find (\<lambda>game. ID game = ident) (Games lib) = Some game"
      by (cases "find (\<lambda>game. ID game = ident) (Games lib)") (auto simp: find_None_iff)
    then have "game \<in> set (Games lib)" "ID game = ident"
      by (auto simp: find_Some_iff)
    with found show "\<exists>game\<in>set (Games lib). ID game = ident
        \<and> find (\<lambda>game. ID game = ident) (Games lib) = Some game
        \<and> handleRequest env req lib =
            (Returns \<lparr>RespType = ''success'', RespID = ReqID req, Success = True,
                      Data = Game game, Error = []\<rparr>, lib)"
      by (auto simp: dispatch)
  qed
qed

theorem get_game_response_witness:
  "handleRequest jsonEnv \<lparr>ReqType = ''get_game'', ReqID = ''r1'', Payload = Some (quoted ''NOPE'')\<rparr>
       zeldaLibrary =
     (Returns \<lparr>RespType = ''error'', RespID = ''r1'', Success = False,
               Data = NoData, Error = ''Game not found''\<rparr>, zeldaLibrary)
   \<and> handleRequest jsonEnv \<lparr>ReqType = ''get_game'', ReqID = ''r2'', Payload = Some (quoted ''ZELDAW'')\<rparr>
       zeldaLibrary =
     (Returns \<lparr>RespType = ''success'', RespID = ''r2'', Success = True,
               Data = Game zeldaGame, Error = []\<rparr>, zeldaLibrary)"
proof -
  have free: "mu zeldaLibrary = Unlocked"
    by (simp add: zeldaLibrary_def)
  have nope: "UnmarshalString jsonEnv (quoted ''NOPE'') = Inr ''NOPE''"
    by (simp add: jsonEnv_def quietEnv_def)
  have zelda: "UnmarshalString jsonEnv (quoted ''ZELDAW'') = Inr ''ZELDAW''"
    by (simp add: jsonEnv_def quietEnv_def quoted_def)
  have games: "Games zeldaLibrary = [zeldaGame]" "ID zeldaGame = ''ZELDAW''"
    by (simp_all add: zeldaLibrary_def zeldaGame_def)
  have 1: "handleRequest jsonEnv \<lparr>ReqType = ''get_game'', ReqID = ''r1'', Payload = Some (quoted ''NOPE'')\<rparr>
       zeldaLibrary =
     (Returns \<lparr>RespType = ''error'', RespID = ''r1'', Success = False,
               Data = NoData, Error = ''Game not found''\<rparr>, zeldaLibrary)"
    using get_game_response [OF free _ _ nope,
        of "\<lparr>ReqType = ''get_game'', ReqID = ''r1'', Payload = Some (quoted ''NOPE'')\<rparr>"]
    by (simp add: games)
  have 2: "handleRequest jsonEnv \<lparr>ReqType = ''get_game'', ReqID = ''r2'', Payload = Some (quoted ''ZELDAW'')\<rparr>
       zeldaLibrary =
     (Returns \<lparr>RespType = ''success'', RespID = ''r2'', Success = True,
               Data = Game zeldaGame, Error = []\<rparr>, zeldaLibrary)"
    using get_game_response [OF free _ _ zelda,
        of "\<lparr>ReqType = ''get_game'', ReqID = ''r2'', Payload = Some (quoted ''ZELDAW'')\<rparr>"]
    by (simp add: games)
  from 1 2 show ?thesis
    by blast
qed

(*THMS*)
section \<open>Properties of the connection loop\<close>

lemma decodeAll_nonempty: "rb \<in> set (decodeAll s) \<Longrightarrow> snd rb \<noteq> []"
  by (induction s rule: decodeAll.induct) (auto split: prod.splits)

lemma concat_chunks_Nil:
  "(\<And>rb. rb \<in> set chunks \<Longrightarrow> snd rb \<noteq> []) \<Longrightarrow> concat (map snd chunks) = [] \<longleftrightarrow> chunks = []"
  by (cases chunks) auto

lemma dropWhile_twice_Nil:
  "dropWhile P (rev (dropWhile P xs)) = [] \<longleftrightarrow> (\<forall>x\<in>set xs. P x)"
proof
  assume all: "\<forall>x\<in>set xs. P x"
  then show "dropWhile P (rev (dropWhile P xs)) = []"
    by (auto simp: dropWhile_eq_Nil_conv dest: set_dropWhileD)
next
  assume empty: "dropWhile P (rev (dropWhile P xs)) = []"
  show "\<forall>x\<in>set xs. P x"
  proof (cases "dropWhile P xs")
    case Nil
    then show ?thesis
      by (simp add: dropWhile_eq_Nil_conv)
  next
    case (Cons y ys)
    then have "\<not> P y"
      using hd_dropWhile [of P xs] by simp
    moreover from empty Cons have "P y"
      by (simp add: dropWhile_eq_Nil_conv)
    ultimately show ?thesis
      by simp
  qed
qed

text \<open>\<open>TrimSpace\<close> leaves nothing exactly of the lines that are white space only.\<close>

lemma TrimSpace_blank: "TrimSpace line = [] \<longleftrightarrow> blank line"
proof -
  let ?P = "\<lambda>rb. IsSpace (fst rb)"
  let ?kept = "rev (dropWhile ?P (rev (dropWhile ?P (decodeAll line))))"
  have "rb \<in> set ?kept \<Longrightarrow> snd rb \<noteq> []" for rb
  proof -
    assume "rb \<in> set ?kept"
    then have "rb \<in> set (dropWhile ?P (rev (dropWhile ?P (decodeAll line))))"
      by simp
    then have "rb \<in> set (rev (dropWhile ?P (decodeAll line)))"
      by (rule set_dropWhileD)
    then have "rb \<in> set (dropWhile ?P (decodeAll line))"
      by simp
    then have "rb \<in> set (decodeAll line)"
      by (rule set_dropWhileD)
    then show ?thesis
      by (rule decodeAll_nonempty)
  qed
  then have "TrimSpace line = [] \<longleftrightarrow> ?kept = []"
    unfolding TrimSpace_def by (rule concat_chunks_Nil)
  also have "\<dots> \<longleftrightarrow> (\<forall>rb\<in>set (decodeAll line). ?P rb)"
    unfolding rev_is_Nil_conv by (rule dropWhile_twice_Nil)
  also have "\<dots> \<longleftrightarrow> blank line"
    by (simp add: blank_def runes_def list_all_iff)
  finally show ?thesis .
qed

lemma serveLine_blank:
  "blank received \<Longrightarrow> serveLine env handler received st = (Returns None, st)"
  by (simp add: serveLine_def TrimSpace_blank)

lemma serveLine_invalid:
  "\<not> blank received \<Longrightarrow> UnmarshalRequest env (TrimSpace received) = Inl err \<Longrightarrow>
   serveLine env handler received st =
     (Returns (Some (errorResponse [] (''Invalid JSON: '' @ err))), st)"
  by (simp add: serveLine_def TrimSpace_blank Let_def)

lemma serveLine_request:
  "\<not> blank received \<Longrightarrow> UnmarshalRequest env (TrimSpace received) = Inr req \<Longrightarrow>
   (case handler of Some h \<Rightarrow> h req st | None \<Rightarrow> (Returns (defaultHandler req), st))
     = (Returns resp, st') \<Longrightarrow>
   serveLine env handler received st = (Returns (Some resp), st')"
  by (simp add: serveLine_def TrimSpace_blank Let_def)

lemma handleRequest_status:
  "ReqType req = ''status'' \<Longrightarrow>
   handleRequest env req lib =
     (Returns \<lparr>RespType = ''status'', RespID = ReqID req, Success = True,
               Data = Fields [(''status'', ''ready''), (''version'', ''1.0.0'')],
               Error = []\<rparr>, lib)"
  by (simp add: handleRequest_def MsgTypeListGames_def MsgTypeGetGame_def
      MsgTypeGetFavorites_def MsgTypeToggleFavorite_def MsgTypeScan_def MsgTypeStatus_def)

text \<open>
  C9.  While the server is running, the loop of \<open>handleClient\<close> treats the lines it
  receives one by one.  A blank line sends nothing.  A line that is not blank and does
  not decode as a request sends one error response, of type \<open>"error"\<close> with an empty
  ID, and the loop goes on with the next line.  A line that decodes sends the one
  response its handler (the installed one, or the default one) returns, and the loop
  goes on.  So a line that does not decode followed by a \<open>status\<close> line sends an
  error response and then the status response of \<open>handleRequest\<close>.
\<close>

theorem handleClient_lines:
  "(blank received \<longrightarrow>
      handleClient env True handler (received # rest) st = handleClient env True handler rest st)
   \<and> (\<not> blank received \<and> UnmarshalRequest env (TrimSpace received) = Inl err \<longrightarrow>
      handleClient env True handler (received # rest) st =
        (errorResponse [] (''Invalid JSON: '' @ err) # fst (handleClient env True handler rest st),
         snd (handleClient env True handler rest st))
      \<and> RespType (errorResponse [] (''Invalid JSON: '' @ err)) = ''error''
      \<and> RespID (errorResponse [] (''Invalid JSON: '' @ err)) = []
      \<and> \<not> Success (errorResponse [] (''Invalid JSON: '' @ err)))
   \<and> (\<not> blank received \<and> UnmarshalRequest env (TrimSpace received) = Inr req
       \<and> (case handler of Some h \<Rightarrow> h req st | None \<Rightarrow> (Returns (defaultHandler req), st))
           = (Returns resp, st') \<longrightarrow>
      handleClient env True handler (received # rest) st =
        (resp # fst (handleClient env True handler rest st'),
         snd (handleClient env True handler rest st')))
   \<and> (\<not> blank malformed \<and> UnmarshalRequest env (TrimSpace malformed) = Inl err
       \<and> \<not> blank valid \<and> UnmarshalRequest env (TrimSpace valid) = Inr request
       \<and> ReqType request = ''status'' \<longrightarrow>
      handleClient env True (Some (handleRequest env)) [malformed, valid] lib =
        ([errorResponse [] (''Invalid JSON: '' @ err),
          \<lparr>RespType = ''status'', RespID = ReqID request, Success = True,
           Data = Fields [(''status'', ''ready''), (''version'', ''1.0.0'')], Error = []\<rparr>],
         lib))"
proof (intro conjI impI)
  assume "blank received"
  then show "handleClient env True handler (received # rest) st = handleClient env True handler rest st"
    by (simp add: serveLine_blank split: prod.split)
next
  assume "\<not> blank received \<and> UnmarshalRequest env (TrimSpace received) = Inl err"
  then show "handleClient env True handler (received # rest) st =
      (errorResponse [] (''Invalid JSON: '' @ err) # fst (handleClient env True handler rest st),
       snd (handleClient env True handler rest st))"
    by (simp add: serveLine_invalid split: prod.split)
next
  show "RespType (errorResponse [] (''Invalid JSON: '' @ err)) = ''error''"
    by (simp add: errorResponse_def MsgTypeError_def)
next
  show "RespID (errorResponse [] (''Invalid JSON: '' @ err)) = []"
    by (simp add: errorResponse_def)
next
  show "\<not> Success (errorResponse [] (''Invalid JSON: '' @ err))"
    by (simp add: errorResponse_def)
next
  assume "\<not> blank received \<and> UnmarshalRequest env (TrimSpace received) = Inr req
      \<and> (case handler of Some h \<Rightarrow> h req st | None \<Rightarrow> (Returns (defaultHandler req), st))
          = (Returns resp, st')"
  then have "serveLine env handler received st = (Returns (Some resp), st')"
    by (simp add: serveLine_request)
  then show "handleClient env True handler (received # rest) st =
      (resp # fst (handleClient env True handler rest st'),
       snd (handleClient env True handler rest st'))"
    by (simp split: prod.split)
next
  assume a: "\<not> blank malformed \<and> UnmarshalRequest env (TrimSpace malformed) = Inl err
      \<and> \<not> blank valid \<and> UnmarshalRequest env (TrimSpace valid) = Inr request
      \<and> ReqType request = ''status''"
  then have 1: "serveLine env (Some (handleRequest env)) malformed lib =
      (Returns (Some (errorResponse [] (''Invalid JSON: '' @ err))), lib)"
    by (simp add: serveLine_invalid)
  from a have status: "ReqType request = ''status''"
    by blast
  have 2: "serveLine env (Some (handleRequest env)) valid lib =
      (Returns (Some \<lparr>RespType = ''status'', RespID = ReqID request, Success = True,
           Data = Fields [(''status'', ''ready''), (''version'', ''1.0.0'')], Error = []\<rparr>), lib)"
  proof (rule serveLine_request)
    from a show "\<not> blank valid"
      by blast
    from a show "UnmarshalRequest env (TrimSpace valid) = Inr request"
      by blast
    from status show "(case Some (handleRequest env) of
          Some h \<Rightarrow> h request lib
        | None \<Rightarrow> (Returns (defaultHandler request), lib)) =
        (Returns \<lparr>RespType = ''status'', RespID = ReqID request, Success = True,
           Data = Fields [(''status'', ''ready''), (''version'', ''1.0.0'')], Error = []\<rparr>, lib)"
      by (simp add: handleRequest_status)
  qed
  show "handleClient env True (Some (handleRequest env)) [malformed, valid] lib =
      ([errorResponse [] (''Invalid JSON: '' @ err),
        \<lparr>RespType = ''status'', RespID = ReqID request, Success = True,
         Data = Fields [(''status'', ''ready''), (''version'', ''1.0.0'')], Error = []\<rparr>],
       lib)"
    by (simp add: 1 2)
qed

theorem handleClient_lines_witness:
  "blank ''  '' \<and> \<not> blank ''not json'' \<and> \<not> blank (statusLine @ [CHR 0x0A])
   \<and> handleClient jsonEnv True (Some (handleRequest jsonEnv))
        [''  '', ''not json'' @ [CHR 0x0A], statusLine @ [CHR 0x0A]] zeldaLibrary =
      ([errorResponse [] ''Invalid JSON: invalid character'',
        \<lparr>RespType = ''status'', RespID = [], Success = True,
         Data = Fields [(''status'', ''ready''), (''version'', ''1.0.0'')], Error = []\<rparr>],
       zeldaLibrary)"
proof -
  have b1: "blank ''  ''"
    by (simp add: blank_def runes_def byte_def IsSpace_def)
  have b2: "\<not> blank (''not json'' @ [CHR 0x0A])" "\<not> blank ''not json''"
    by (simp_all add: blank_def runes_def byte_def IsSpace_def)
  have b3: "\<not> blank (statusLine @ [CHR 0x0A])"
    by (simp add: blank_def runes_def byte_def IsSpace_def statusLine_def quoted_def)
  have t2: "TrimSpace (''not json'' @ [CHR 0x0A]) = ''not json''"
    by (simp add: TrimSpace_def byte_def IsSpace_def)
  have t3: "TrimSpace (statusLine @ [CHR 0x0A]) = statusLine"
    by (simp add: TrimSpace_def byte_def IsSpace_def statusLine_def quoted_def)
  have u2: "UnmarshalRequest jsonEnv (TrimSpace (''not json'' @ [CHR 0x0A])) = Inl ''invalid character''"
    unfolding t2 by (simp add: jsonEnv_def quietEnv_def statusLine_def quoted_def)
  have u3: "UnmarshalRequest jsonEnv (TrimSpace (statusLine @ [CHR 0x0A]))
      = Inr \<lparr>ReqType = ''status'', ReqID = [], Payload = None\<rparr>"
    unfolding t3 by (simp add: jsonEnv_def quietEnv_def)
  note main = handleClient_lines [of _ jsonEnv "Some (handleRequest jsonEnv)" _ zeldaLibrary
      "''invalid character''" _ _ _ "''not json'' @ [CHR 0x0A]" "statusLine @ [CHR 0x0A]"
      "\<lparr>ReqType = ''status'', ReqID = [], Payload = None\<rparr>" zeldaLibrary]
  have skip: "handleClient jsonEnv True (Some (handleRequest jsonEnv))
        [''  '', ''not json'' @ [CHR 0x0A], statusLine @ [CHR 0x0A]] zeldaLibrary =
      handleClient jsonEnv True (Some (handleRequest jsonEnv))
        [''not json'' @ [CHR 0x0A], statusLine @ [CHR 0x0A]] zeldaLibrary"
    using main [of "''  ''"] b1 by blast
  have pair: "handleClient jsonEnv True (Some (handleRequest jsonEnv))
        [''not json'' @ [CHR 0x0A], statusLine @ [CHR 0x0A]] zeldaLibrary =
      ([errorResponse [] (''Invalid JSON: '' @ ''invalid character''),
        \<lparr>RespType = ''status'', RespID = ReqID \<lparr>ReqType = ''status'', ReqID = [], Payload = None\<rparr>,
         Success = True,
         Data = Fields [(''status'', ''ready''), (''version'', ''1.0.0'')], Error = []\<rparr>],
       zeldaLibrary)"
    using main [of "''  ''"] b2 b3 u2 u3 by simp
  from skip pair b1 b2 b3 show ?thesis
    by simp
qed

section \<open>Properties of GetRecentlyPlayed\<close>

lemma bubble_length [simp]: "length (bubble games) = length games"
  by (induction games rule: bubble.induct) simp_all

lemma bubble_Nil [simp]: "bubble games = [] \<longleftrightarrow> games = []"
  by (induction games rule: bubble.induct) simp_all

lemma bubble_mset [simp]: "mset (bubble games) = mset games"
  by (induction games rule: bubble.induct) simp_all

lemma bubble_set [simp]: "set (bubble games) = set games"
  using bubble_mset [of games] by (metis set_mset_mset)

text \<open>A pass moves a record with the earliest timestamp to the end.\<close>

lemma bubble_last:
  "games \<noteq> [] \<Longrightarrow> game \<in> set games \<Longrightarrow>
   LastPlayed (last (bubble games)) \<le> LastPlayed game"
proof (induction games arbitrary: game rule: bubble.induct)
  case 1
  then show ?case by simp
next
  case (2 x)
  then show ?case by simp
next
  case (3 x y rest)
  show ?case
  proof (cases "Before (LastPlayed x) (LastPlayed y)")
    case True
    then have last: "last (bubble (x # y # rest)) = last (bubble (x # rest))"
      by simp
    have "LastPlayed (last (bubble (x # rest))) \<le> LastPlayed g" if "g \<in> set (x # rest)" for g
      using "3.IH"(1) [OF True _ that] by simp
    moreover from True have "LastPlayed x \<le> LastPlayed y"
      by (simp add: Before_def)
    ultimately show ?thesis
      unfolding last using "3.prems"(2) by fastforce
  next
    case False
    then have last: "last (bubble (x # y # rest)) = last (bubble (y # rest))"
      by simp
    have "LastPlayed (last (bubble (y # rest))) \<le> LastPlayed g" if "g \<in> set (y # rest)" for g
      using "3.IH"(2) [OF False _ that] by simp
    moreover from False have "LastPlayed y \<le> LastPlayed x"
      by (simp add: Before_def)
    ultimately show ?thesis
      unfolding last using "3.prems"(2) by fastforce
  qed
qed

text \<open>A pass keeps the order among the records of one timestamp.\<close>

lemma bubble_stable:
  "filter (\<lambda>game. LastPlayed game = t) (bubble games) = filter (\<lambda>game. LastPlayed game = t) games"
  by (induction games rule: bubble.induct) (auto simp: Before_def)

text \<open>
  The inner loop started at index \<open>j\<close>, with \<open>i\<close> records behind the part it works
  on, is one pass over that part.
\<close>

lemma innerLoop_bubble:
  "length pre = j \<Longrightarrow> length suf = i \<Longrightarrow>
   innerLoop i j (pre @ part @ suf) = pre @ bubble part @ suf"
proof (induction part arbitrary: pre j rule: bubble.induct)
  case 1
  then show ?case
    by (subst innerLoop.simps) simp
next
  case (2 x)
  then show ?case
    by (subst innerLoop.simps) simp
next
  case (3 x y rest)
  let ?games = "pre @ (x # y # rest) @ suf"
  have more: "j + i + 1 < length ?games"
    using "3.prems" by simp
  have at_j: "?games ! j = x" "?games ! (j + 1) = y"
    using "3.prems"(1) by (simp_all add: nth_append)
  have swapped: "?games[j := y, j + 1 := x] = (pre @ [y]) @ (x # rest) @ suf"
    using "3.prems"(1) by (simp add: list_update_append)
  have kept: "?games = (pre @ [x]) @ (y # rest) @ suf"
    by simp
  show ?case
  proof (cases "Before (LastPlayed x) (LastPlayed y)")
    case True
    have "innerLoop i j ?games = innerLoop i (j + 1) ((pre @ [y]) @ (x # rest) @ suf)"
      using more True by (subst innerLoop.simps) (simp only: at_j swapped if_True)
    also have "\<dots> = (pre @ [y]) @ bubble (x # rest) @ suf"
      using "3.prems" by (intro "3.IH"(1) [OF True]) simp_all
    finally show ?thesis
      using True by simp
  next
    case False
    have "innerLoop i j ?games = innerLoop i (j + 1) ?games"
      using more False by (subst innerLoop.simps) (simp only: at_j if_True if_False)
    also have "\<dots> = (pre @ [x]) @ bubble (y # rest) @ suf"
      unfolding kept using "3.prems" by (intro "3.IH"(2) [OF False]) simp_all
    finally show ?thesis
      using False by simp
  qed
qed

lemma innerLoop_pass:
  "length suf = i \<Longrightarrow> innerLoop i 0 (pre @ suf) = bubble pre @ suf"
  using innerLoop_bubble [of "[]" 0 suf i pre] by simp

text \<open>
  The outer loop, entered with the last \<open>i\<close> records in place: they are sorted and
  none of them is later than a record before them.
\<close>

lemma outerLoop_sorted:
  assumes "length suf = i" and "recentFirst suf"
    and "\<forall>a\<in>set pre. \<forall>b\<in>set suf. LastPlayed b \<le> LastPlayed a"
  shows "recentFirst (outerLoop i (pre @ suf))
    \<and> mset (outerLoop i (pre @ suf)) = mset (pre @ suf)
    \<and> (\<forall>t. filter (\<lambda>game. LastPlayed game = t) (outerLoop i (pre @ suf))
           = filter (\<lambda>game. LastPlayed game = t) (pre @ suf))"
  using assms
proof (induction "length pre" arbitrary: pre suf i rule: less_induct)
  case less
  show ?case
  proof (cases "i + 1 < length (pre @ suf)")
    case False
    then have short: "length pre \<le> 1"
      using less.prems(1) by simp
    then have "sorted_wrt (\<lambda>a b. LastPlayed b \<le> LastPlayed a) pre"
      by (cases pre) simp_all
    with less.prems have "recentFirst (pre @ suf)"
      by (simp add: recentFirst_def sorted_wrt_append)
    moreover from False have "outerLoop i (pre @ suf) = pre @ suf"
      by (subst outerLoop.simps) simp
    ultimately show ?thesis
      by simp
  next
    case True
    then have long: "2 \<le> length pre"
      using less.prems(1) by simp
    then have nonempty: "pre \<noteq> []" "bubble pre \<noteq> []"
      by auto
    define m where "m = last (bubble pre)"
    define pre' where "pre' = butlast (bubble pre)"
    have split: "bubble pre = pre' @ [m]"
      using nonempty by (simp add: m_def pre'_def)
    have m_in: "m \<in> set pre"
      using split bubble_set [of pre] by (metis in_set_conv_decomp)
    have pre'_in: "a \<in> set pre' \<Longrightarrow> a \<in> set pre" for a
      using split bubble_set [of pre] by (metis in_set_butlastD pre'_def)
    have step: "outerLoop i (pre @ suf) = outerLoop (i + 1) (pre' @ (m # suf))"
      using True less.prems(1) by (subst outerLoop.simps) (simp add: innerLoop_pass split)
    have shorter: "length pre' < length pre"
      using nonempty by (simp add: pre'_def)
    have len: "length (m # suf) = i + 1"
      using less.prems(1) by simp
    have sorted: "recentFirst (m # suf)"
      using less.prems(2,3) m_in by (simp add: recentFirst_def)
    have above: "\<forall>a\<in>set pre'. \<forall>b\<in>set (m # suf). LastPlayed b \<le> LastPlayed a"
    proof (intro ballI)
      fix a b
      assume a: "a \<in> set pre'" and b: "b \<in> set (m # suf)"
      from a have a_in: "a \<in> set pre"
        by (rule pre'_in)
      show "LastPlayed b \<le> LastPlayed a"
      proof (cases "b = m")
        case True
        then show ?thesis
          unfolding m_def using bubble_last [OF nonempty(1) a_in] by simp
      next
        case False
        with b have "b \<in> set suf" by simp
        with less.prems(3) a_in show ?thesis by blast
      qed
    qed
    note IH = less.hyps [OF shorter len sorted above]
    have same: "mset (pre' @ (m # suf)) = mset (pre @ suf)"
      using bubble_mset [of pre] unfolding split by simp
    have stable: "filter (\<lambda>game. LastPlayed game = t) (pre' @ (m # suf))
        = filter (\<lambda>game. LastPlayed game = t) (pre @ suf)" for t
    proof -
      have pass: "filter (\<lambda>game. LastPlayed game = t) (pre' @ [m])
          = filter (\<lambda>game. LastPlayed game = t) pre"
        using bubble_stable [of t pre] unfolding split .
      have "filter (\<lambda>game. LastPlayed game = t) (pre' @ (m # suf))
          = filter (\<lambda>game. LastPlayed game = t) (pre' @ [m])
            @ filter (\<lambda>game. LastPlayed game = t) suf"
        by simp
      also have "\<dots> = filter (\<lambda>game. LastPlayed game = t) pre
            @ filter (\<lambda>game. LastPlayed game = t) suf"
        unfolding pass ..
      finally show ?thesis
        by simp
    qed
    from IH same stable show ?thesis
      unfolding step by simp
  qed
qed

lemma outerLoop_whole:
  "recentFirst (outerLoop 0 games)
   \<and> mset (outerLoop 0 games) = mset games
   \<and> (\<forall>t. filter (\<lambda>game. LastPlayed game = t) (outerLoop 0 games)
          = filter (\<lambda>game. LastPlayed game = t) games)"
  using outerLoop_sorted [of "[]" 0 games] by (simp add: recentFirst_def)

text \<open>The loops compute the stable sort by descending timestamp.\<close>

lemma outerLoop_sort_key:
  "outerLoop 0 games = sort_key (\<lambda>game. - LastPlayed game) games"
proof (rule properties_for_sort_key [symmetric])
  show "mset (outerLoop 0 games) = mset games"
    using outerLoop_whole by blast
next
  fix k
  have same: "(\<lambda>game. - LastPlayed k = - LastPlayed game) = (\<lambda>game. LastPlayed game = LastPlayed k)"
    by auto
  show "filter (\<lambda>game. - LastPlayed k = - LastPlayed game) (outerLoop 0 games)
      = filter (\<lambda>game. - LastPlayed k = - LastPlayed game) games"
    unfolding same using outerLoop_whole by blast
next
  have "recentFirst (outerLoop 0 games)"
    using outerLoop_whole by blast
  then show "sorted (map (\<lambda>game. - LastPlayed game) (outerLoop 0 games))"
    by (simp add: recentFirst_def sorted_map)
qed


text \<open>
  C6.  On a store whose lock is free, for every integer \<open>limit\<close>: let \<open>sorted\<close> be the
  records of the store sorted by \<open>LastPlayed\<close>, later timestamps first (records with
  the same timestamp keep their order).  \<open>sorted\<close> is sorted by descending timestamp
  and has the same records as the store, as many times.  With \<open>limit > 0\<close> the call
  returns the first \<open>limit\<close> records of \<open>sorted\<close>, which are \<open>min(limit, total)\<close>
  records (all of them when \<open>limit\<close> is not less than the total); with \<open>limit \<le> 0\<close> it
  returns \<open>sorted\<close>.  The store is left as it was.
\<close>

theorem GetRecentlyPlayed_sorted:
  assumes "mu lib = Unlocked"
  shows "recentFirst (sort_key (\<lambda>game. - LastPlayed game) (Games lib))
     \<and> mset (sort_key (\<lambda>game. - LastPlayed game) (Games lib)) = mset (Games lib)
     \<and> (0 < limit \<longrightarrow>
          GetRecentlyPlayed limit lib =
            (Returns (take (nat limit) (sort_key (\<lambda>game. - LastPlayed game) (Games lib))), lib)
          \<and> length (take (nat limit) (sort_key (\<lambda>game. - LastPlayed game) (Games lib)))
              = min (nat limit) (length (Games lib))
          \<and> (int (length (Games lib)) \<le> limit \<longrightarrow>
               take (nat limit) (sort_key (\<lambda>game. - LastPlayed game) (Games lib))
                 = sort_key (\<lambda>game. - LastPlayed game) (Games lib)))
     \<and> (limit \<le> 0 \<longrightarrow>
          GetRecentlyPlayed limit lib =
            (Returns (sort_key (\<lambda>game. - LastPlayed game) (Games lib)), lib))"
proof -
  let ?sorted = "sort_key (\<lambda>game. - LastPlayed game) (Games lib)"
  have loops: "outerLoop 0 (Games lib) = ?sorted"
    by (rule outerLoop_sort_key)
  have call: "GetRecentlyPlayed limit lib =
      (Returns (if 0 < limit \<and> limit < int (length (Games lib))
                then take (nat limit) ?sorted else ?sorted), lib)"
    using assms by (simp add: GetRecentlyPlayed_def RLock_def RUnlock_def Let_def loops)
  have "recentFirst ?sorted"
    using outerLoop_whole [of "Games lib"] unfolding loops by blast
  moreover have "mset ?sorted = mset (Games lib)"
    by simp
  moreover have "GetRecentlyPlayed limit lib = (Returns (take (nat limit) ?sorted), lib)"
    if "0 < limit"
    using that unfolding call by simp
  moreover have "length (take (nat limit) ?sorted) = min (nat limit) (length (Games lib))"
    by simp
  moreover have "take (nat limit) ?sorted = ?sorted" if "int (length (Games lib)) \<le> limit"
    using that by simp
  moreover have "GetRecentlyPlayed limit lib = (Returns ?sorted, lib)" if "limit \<le> 0"
    using that unfolding call by simp
  ultimately show ?thesis
    by blast
qed

theorem GetRecentlyPlayed_sorted_witness:
  "mu playedLibrary = Unlocked
   \<and> GetRecentlyPlayed 2 playedLibrary =
       (Returns [zeldaGame\<lparr>ID := ''MARIOK'', LastPlayed := 30\<rparr>,
                 zeldaGame\<lparr>ID := ''METROIDQ'', LastPlayed := 20\<rparr>], playedLibrary)
   \<and> GetRecentlyPlayed 7 playedLibrary =
       (Returns [zeldaGame\<lparr>ID := ''MARIOK'', LastPlayed := 30\<rparr>,
                 zeldaGame\<lparr>ID := ''METROIDQ'', LastPlayed := 20\<rparr>,
                 zeldaGame\<lparr>LastPlayed := 10\<rparr>], playedLibrary)
   \<and> GetRecentlyPlayed 0 playedLibrary =
       (Returns [zeldaGame\<lparr>ID := ''MARIOK'', LastPlayed := 30\<rparr>,
                 zeldaGame\<lparr>ID := ''METROIDQ'', LastPlayed := 20\<rparr>,
                 zeldaGame\<lparr>LastPlayed := 10\<rparr>], playedLibrary)"
proof -
  have free: "mu playedLibrary = Unlocked"
    by (simp add: playedLibrary_def zeldaLibrary_def)
  have sorted: "sort_key (\<lambda>game. - LastPlayed game) (Games playedLibrary) =
      [zeldaGame\<lparr>ID := ''MARIOK'', LastPlayed := 30\<rparr>,
       zeldaGame\<lparr>ID := ''METROIDQ'', LastPlayed := 20\<rparr>,
       zeldaGame\<lparr>LastPlayed := 10\<rparr>]"
    by (simp add: playedLibrary_def)
  have two: "GetRecentlyPlayed 2 playedLibrary =
       (Returns [zeldaGame\<lparr>ID := ''MARIOK'', LastPlayed := 30\<rparr>,
                 zeldaGame\<lparr>ID := ''METROIDQ'', LastPlayed := 20\<rparr>], playedLibrary)"
    using GetRecentlyPlayed_sorted [OF free, of 2] unfolding sorted by simp
  have seven: "GetRecentlyPlayed 7 playedLibrary =
       (Returns [zeldaGame\<lparr>ID := ''MARIOK'', LastPlayed := 30\<rparr>,
                 zeldaGame\<lparr>ID := ''METROIDQ'', LastPlayed := 20\<rparr>,
                 zeldaGame\<lparr>LastPlayed := 10\<rparr>], playedLibrary)"
    using GetRecentlyPlayed_sorted [OF free, of 7] unfolding sorted by simp
  have zero: "GetRecentlyPlayed 0 playedLibrary =
       (Returns [zeldaGame\<lparr>ID := ''MARIOK'', LastPlayed := 30\<rparr>,
                 zeldaGame\<lparr>ID := ''METROIDQ'', LastPlayed := 20\<rparr>,
                 zeldaGame\<lparr>LastPlayed := 10\<rparr>], playedLibrary)"
    using GetRecentlyPlayed_sorted [OF free, of 0] unfolding sorted by simp
  from free two seven zero show ?thesis
    by blast
qed

end
